theory Spec2Isabelle
  imports Complex_Main
begin

section \<open>Promises and asynchronous functions\<close>

text \<open>
  The loader (\<^verbatim>\<open>src/loader.ts\<close>) is written with promises on a single event loop.
  An asynchronous function is a function from the state it starts in to the outcome of
  its promise: it resolves with a value, it rejects with a reason, or it never settles.
  Every outcome carries the state reached, so the effects a rejected function had before
  it rejected stay visible. A synchronous function that may throw uses the same type
  (a throw is \<open>Rejected\<close>, and it is never \<open>Pending\<close>).

  \<open>Pending (Some d) s\<close> is a promise waiting for the deferred object at address \<open>d\<close>;
  \<open>Pending None s\<close> is a promise of external code that never settles.
\<close>

datatype ('e, 'a, 's) outcome =
    Resolved 'a 's
  | Rejected 'e 's
  | Pending "nat option" 's

text \<open>\<^verbatim>\<open>p.then(k)\<close> and \<^verbatim>\<open>await p\<close>: the continuation runs only on a resolved promise.\<close>

definition await ::
  "('e, 'a, 's) outcome \<Rightarrow> ('a \<Rightarrow> 's \<Rightarrow> ('e, 'b, 's) outcome) \<Rightarrow> ('e, 'b, 's) outcome" where
  "await p k =
     (case p of
        Resolved a s \<Rightarrow> k a s
      | Rejected e s \<Rightarrow> Rejected e s
      | Pending d s \<Rightarrow> Pending d s)"

section \<open>execHooksChain\<close>

text \<open>
  \<^verbatim>\<open>
  function execHooksChain(hooks, app, global = window): Promise<any> {
    if (hooks.length) {
      return hooks.reduce((chain, hook) => chain.then(() => hook(app, global)), Promise.resolve());
    }
    return Promise.resolve();
  }
  \<close>
  A hook is an asynchronous function of the application descriptor and the global object.
  The value a hook resolves with is never read by the loader and is not modelled.
\<close>

type_synonym ('a, 'g, 'e, 's) hook = "'a \<Rightarrow> 'g \<Rightarrow> 's \<Rightarrow> ('e, unit, 's) outcome"

definition execHooksChain ::
  "('a, 'g, 'e, 's) hook list \<Rightarrow> 'a \<Rightarrow> 'g \<Rightarrow> 's \<Rightarrow> ('e, unit, 's) outcome" where
  "execHooksChain hooks app global s =
     (if hooks \<noteq> []
      then foldl (\<lambda>chain hook. await chain (\<lambda>_. hook app global)) (Resolved () s) hooks
      else Resolved () s)"

text \<open>Test doubles that record their invocation in the state, a list of numbers.\<close>

definition recording_hook :: "nat \<Rightarrow> (unit, unit, nat, nat list) hook" where
  "recording_hook n app global s = Resolved () (s @ [n])"

definition rejecting_hook :: "nat \<Rightarrow> (unit, unit, nat, nat list) hook" where
  "rejecting_hook n app global s = Rejected n (s @ [n])"

section \<open>The host page\<close>

text \<open>
  What the loader rejects with: an \<^verbatim>\<open>Error\<close> it throws itself (with its message), an
  exception of the DOM, or any value that external code (a hook, the application, the
  sandbox, the content loader) throws or rejects with.
\<close>

datatype rejection = Error string | DOMException string | Reason nat

text \<open>
  The document is a store of nodes addressed by number. Each node has its list of child
  nodes and its parent, the markup assigned to it through \<^verbatim>\<open>innerHTML\<close> (kept as text: the
  loader never looks inside it), its shadow root and its attributes. The nodes below
  \<open>allocated\<close> exist. \<open>selectors\<close> is what \<^verbatim>\<open>document.querySelector\<close> finds, \<open>elementIds\<close>
  what \<^verbatim>\<open>document.getElementById\<close> finds. The two flags say which shadow-DOM primitive
  the platform offers on its elements.
\<close>

type_synonym node = nat

record document =
  children :: "node \<Rightarrow> node list"
  parent :: "node \<Rightarrow> node option"
  innerHTML :: "node \<Rightarrow> string"
  shadowRoot :: "node \<Rightarrow> node option"
  attributes :: "node \<Rightarrow> string \<Rightarrow> string option"
  allocated :: nat
  selectors :: "string \<Rightarrow> node option"
  elementIds :: "string \<Rightarrow> node option"
  hasAttachShadow :: bool
  hasCreateShadowRoot :: bool

text \<open>
  The environment is everything outside the loader's module that code of the page can
  reach: the document, the console, the clock (\<^verbatim>\<open>+new Date()\<close>, in milliseconds), the
  stream of values \<^verbatim>\<open>Math.random()\<close> returns with the number of values drawn so far, and
  the page's own state \<open>user\<close>.
\<close>

record 'u env =
  dom :: document
  console :: "string list"
  now :: nat
  randoms :: "nat \<Rightarrow> real"
  drawn :: nat
  user :: 'u

subsection \<open>DOM primitives\<close>

text \<open>
  \<^verbatim>\<open>Node.contains\<close>: the node itself or one of its descendants; \<^verbatim>\<open>contains(null)\<close> is
  false. The walk goes from the node up through the parents; in a document of
  \<open>allocated\<close> nodes a chain of parents is no longer than that.
\<close>

fun inclusiveAncestor :: "nat \<Rightarrow> (node \<Rightarrow> node option) \<Rightarrow> node \<Rightarrow> node \<Rightarrow> bool" where
  "inclusiveAncestor 0 par c e = (c = e)"
| "inclusiveAncestor (Suc k) par c e =
     (c = e \<or> (case par e of None \<Rightarrow> False | Some p \<Rightarrow> inclusiveAncestor k par c p))"

definition contains :: "document \<Rightarrow> node \<Rightarrow> node option \<Rightarrow> bool" where
  "contains d c element =
     (case element of
        None \<Rightarrow> False
      | Some e \<Rightarrow> inclusiveAncestor (Suc (allocated d)) (parent d) c e)"

definition firstChild :: "document \<Rightarrow> node \<Rightarrow> node option" where
  "firstChild d c = (case children d c of [] \<Rightarrow> None | x # _ \<Rightarrow> Some x)"

definition removeChild :: "document \<Rightarrow> node \<Rightarrow> node \<Rightarrow> document" where
  "removeChild d c x =
     d\<lparr>children := (children d)(c := remove1 x (children d c)),
       parent := (parent d)(x := None)\<rparr>"

text \<open>
  \<^verbatim>\<open>appendChild\<close> throws a \<^verbatim>\<open>HierarchyRequestError\<close> (here \<open>None\<close>) when the node to insert is
  the target or one of its ancestors; otherwise it takes the node out of its old parent
  and makes it the last child of the target.
\<close>

definition appendChild :: "document \<Rightarrow> node \<Rightarrow> node \<Rightarrow> document option" where
  "appendChild d c e =
     (if contains d e (Some c) then None
      else
        let d1 = (case parent d e of None \<Rightarrow> d | Some p \<Rightarrow> removeChild d p e)
        in Some (d1\<lparr>children := (children d1)(c := children d1 c @ [e]),
                    parent := (parent d1)(e := Some c)\<rparr>))"

text \<open>\<^verbatim>\<open>document.createElement\<close>: a fresh node without parent, children, markup or attributes.\<close>

definition newNode :: "document \<Rightarrow> node \<times> document" where
  "newNode d =
     (allocated d,
      d\<lparr>children := (children d)(allocated d := []),
        parent := (parent d)(allocated d := None),
        innerHTML := (innerHTML d)(allocated d := []),
        shadowRoot := (shadowRoot d)(allocated d := None),
        attributes := (attributes d)(allocated d := (\<lambda>_. None)),
        allocated := Suc (allocated d)\<rparr>)"

text \<open>
  \<^verbatim>\<open>el.attachShadow({ mode: 'open' })\<close> and the older \<^verbatim>\<open>el.createShadowRoot()\<close>: a fresh
  node that becomes the shadow root of \<open>el\<close>.
\<close>

definition attachShadow :: "document \<Rightarrow> node \<Rightarrow> node \<times> document" where
  "attachShadow d el =
     (let (r, d1) = newNode d in (r, d1\<lparr>shadowRoot := (shadowRoot d1)(el := Some r)\<rparr>))"

definition createShadowRoot :: "document \<Rightarrow> node \<Rightarrow> node \<times> document" where
  "createShadowRoot d el =
     (let (r, d1) = newNode d in (r, d1\<lparr>shadowRoot := (shadowRoot d1)(el := Some r)\<rparr>))"

subsection \<open>Container addressing\<close>

text \<open>
  A container is given as a lookup key or as an element. An empty key is falsy in
  JavaScript, an element never is.
\<close>

datatype container_ref = Selector string | Element node

fun truthy :: "container_ref option \<Rightarrow> bool" where
  "truthy None = False"
| "truthy (Some (Selector s)) = (s \<noteq> [])"
| "truthy (Some (Element n)) = True"

text \<open>
  Modelled from the spec: \<^verbatim>\<open>getContainer\<close> of \<^verbatim>\<open>utils\<close> is not part of the sources at hand.
  Section 6 of the specification: a container is a direct element handle or a lookup
  key resolved at render time. A handle resolves to itself, a key through the document,
  \<^verbatim>\<open>undefined\<close> to nothing.
\<close>

fun getContainer :: "document \<Rightarrow> container_ref option \<Rightarrow> node option" where
  "getContainer d None = None"
| "getContainer d (Some (Selector s)) = selectors d s"
| "getContainer d (Some (Element n)) = Some n"

section \<open>assertElementExist\<close>

text \<open>
  \<^verbatim>\<open>
  function assertElementExist(element, msg?) {
    if (!element) {
      if (msg) { throw new Error(msg); }
      throw new Error('[qiankun] element not existed!');
    }
  }
  \<close>
\<close>

definition assertElementExist ::
  "node option \<Rightarrow> string option \<Rightarrow> 's \<Rightarrow> (rejection, unit, 's) outcome" where
  "assertElementExist element msg s =
     (case element of
        None \<Rightarrow>
          (case msg of
             Some m \<Rightarrow>
               if m \<noteq> [] then Rejected (Error m) s
               else Rejected (Error ''[qiankun] element not existed!'') s
           | None \<Rightarrow> Rejected (Error ''[qiankun] element not existed!'') s)
      | Some _ \<Rightarrow> Resolved () s)"

section \<open>createElement\<close>

text \<open>
  Modelled from the spec: \<^verbatim>\<open>getDefaultTplWrapper\<close> of \<^verbatim>\<open>utils\<close> is not part of the sources at
  hand. The content it builds always parses to exactly one root element (section 4.2 of
  the specification, and the comment in \<^verbatim>\<open>createElement\<close>: "appContent always wrapped
  with a singular div"). The content is therefore kept in parsed form: the id and the
  name attribute of the root element and the template inside it.
\<close>

record app_content =
  wrapperId :: string
  dataName :: string
  template :: string

text \<open>
  \<^verbatim>\<open>
  const supportShadowDOM = document.head.attachShadow || document.head.createShadowRoot;
  function createElement(appContent: string, strictStyleIsolation: boolean): HTMLElement {
    const containerElement = document.createElement('div');
    containerElement.innerHTML = appContent;
    // appContent always wrapped with a singular div
    const appElement = containerElement.firstChild as HTMLElement;
    if (strictStyleIsolation) {
      if (!supportShadowDOM) {
        console.warn('[qiankun]: As current browser not support shadow dom, ...');
      } else {
        const { innerHTML } = appElement;
        appElement.innerHTML = '';
        let shadow: ShadowRoot;
        if (appElement.attachShadow) {
          shadow = appElement.attachShadow({ mode: 'open' });
        } else {
          shadow = (appElement as any).createShadowRoot();
        }
        shadow.innerHTML = innerHTML;
      }
    }
    return appElement;
  }
  \<close>
\<close>

definition supportShadowDOM :: "document \<Rightarrow> bool" where
  "supportShadowDOM d = (hasAttachShadow d \<or> hasCreateShadowRoot d)"

text \<open>
  \<^verbatim>\<open>containerElement.innerHTML = appContent\<close>: the parse makes the root element of the
  content the only child of \<open>containerElement\<close>.
\<close>

definition parseInto :: "document \<Rightarrow> node \<Rightarrow> app_content \<Rightarrow> document" where
  "parseInto d containerElement appContent =
     (let (appElement, d1) = newNode d
      in d1\<lparr>children := (children d1)(containerElement := [appElement]),
            parent := (parent d1)(appElement := Some containerElement),
            innerHTML := (innerHTML d1)(appElement := template appContent),
            attributes := (attributes d1)(appElement :=
              [''id'' \<mapsto> wrapperId appContent, ''data-name'' \<mapsto> dataName appContent])\<rparr>)"

definition shadowWarning :: string where
  "shadowWarning = ''[qiankun]: As current browser not support shadow dom, your strictStyleIsolation configuration will be ignored!''"

definition createElement :: "app_content \<Rightarrow> bool \<Rightarrow> 'u env \<Rightarrow> node option \<times> 'u env" where
  "createElement appContent strictStyleIsolation s =
     (let (containerElement, d1) = newNode (dom s);
          d2 = parseInto d1 containerElement appContent;
          appElement = firstChild d2 containerElement
      in case appElement of
           None \<Rightarrow> (None, s\<lparr>dom := d2\<rparr>)
         | Some el \<Rightarrow>
             if strictStyleIsolation then
               if \<not> supportShadowDOM d2 then
                 (appElement, s\<lparr>dom := d2, console := console s @ [shadowWarning]\<rparr>)
               else
                 let html = innerHTML d2 el;
                     d3 = d2\<lparr>innerHTML := (innerHTML d2)(el := [])\<rparr>;
                     (shadow, d4) =
                       (if hasAttachShadow d3 then attachShadow d3 el else createShadowRoot d3 el);
                     d5 = d4\<lparr>innerHTML := (innerHTML d4)(shadow := html)\<rparr>
                 in (appElement, s\<lparr>dom := d5\<rparr>)
             else (appElement, s\<lparr>dom := d2\<rparr>))"

section \<open>getRender\<close>

datatype phase = Loading | Mounting | Mounted | Unmounted

fun phaseName :: "phase \<Rightarrow> string" where
  "phaseName Loading = ''loading''"
| "phaseName Mounting = ''mounting''"
| "phaseName Mounted = ''mounted''"
| "phaseName Unmounted = ''unmounted''"

text \<open>How a container reads inside a template string.\<close>

fun containerText :: "container_ref option \<Rightarrow> string" where
  "containerText None = ''undefined''"
| "containerText (Some (Selector s)) = s"
| "containerText (Some (Element n)) = ''[object HTMLElement]''"

record render_props =
  element :: "node option"
  loading :: bool
  remountContainer :: "container_ref option"

text \<open>
  A legacy render function gets \<^verbatim>\<open>{ loading, appContent }\<close>, where the content is the
  empty string (here \<open>None\<close>) when there is no element.
\<close>

type_synonym 'u legacy_render =
  "bool \<Rightarrow> app_content option \<Rightarrow> 'u env \<Rightarrow> (rejection, unit, 'u env) outcome"

text \<open>
  \<^verbatim>\<open>
  while (containerElement!.firstChild) {
    rawRemoveChild.call(containerElement, containerElement!.firstChild);
  }
  \<close>
\<close>

function clearContainer :: "document \<Rightarrow> node \<Rightarrow> document" where
  "clearContainer d c =
     (case firstChild d c of
        None \<Rightarrow> d
      | Some x \<Rightarrow> clearContainer (removeChild d c x) c)"
  by pat_completeness auto
termination
proof (relation "measure (\<lambda>(d, c). length (children d c))")
  show "wf (measure (\<lambda>(d, c). length (children d c)))"
    by simp
next
  fix d :: document and c x :: node
  assume "firstChild d c = Some x"
  then have "\<exists>xs. children d c = x # xs"
    by (cases "children d c") (simp_all add: firstChild_def)
  then show "((removeChild d c x, c), (d, c)) \<in> measure (\<lambda>(d, c). length (children d c))"
    by (auto simp add: removeChild_def)
qed

declare clearContainer.simps [simp del]

text \<open>
  \<^verbatim>\<open>
  switch (phase) {
    case 'loading':
    case 'mounting':
      return `[qiankun] Target container with ${container} not existed while ${appName} ${phase}!`;
    case 'mounted':
      return `[qiankun] Target container with ${container} not existed after ${appName} ${phase}!`;
    default:
      return `[qiankun] Target container with ${container} not existed while ${appName} rendering!`;
  }
  \<close>
\<close>

fun errorMsg :: "string \<Rightarrow> container_ref option \<Rightarrow> phase \<Rightarrow> string" where
  "errorMsg appName container Loading =
     ''[qiankun] Target container with '' @ containerText container @ '' not existed while ''
       @ appName @ '' '' @ phaseName Loading @ ''!''"
| "errorMsg appName container Mounting =
     ''[qiankun] Target container with '' @ containerText container @ '' not existed while ''
       @ appName @ '' '' @ phaseName Mounting @ ''!''"
| "errorMsg appName container Mounted =
     ''[qiankun] Target container with '' @ containerText container @ '' not existed after ''
       @ appName @ '' '' @ phaseName Mounted @ ''!''"
| "errorMsg appName container Unmounted =
     ''[qiankun] Target container with '' @ containerText container @ '' not existed while ''
       @ appName @ '' rendering!''"

text \<open>
  \<^verbatim>\<open>
  const render: ElementRender = ({ element, loading, remountContainer }, phase) => {
    if (legacyRender) {
      return legacyRender({ loading, appContent: element ? appContent : '' });
    }
    const containerElement = getContainer(remountContainer || container!);
    if (phase !== 'unmounted') {
      const errorMsg = ...;
      assertElementExist(containerElement, errorMsg);
    }
    if (containerElement && !containerElement.contains(element)) {
      while (containerElement!.firstChild) {
        rawRemoveChild.call(containerElement, containerElement!.firstChild);
      }
      if (element) {
        rawAppendChild.call(containerElement, element);
      }
    }
    return undefined;
  };
  \<close>
  \<open>getRender appName appContent container legacyRender\<close> is the render function.
\<close>

definition getRender ::
  "string \<Rightarrow> app_content \<Rightarrow> container_ref option \<Rightarrow> 'u legacy_render option \<Rightarrow>
   render_props \<Rightarrow> phase \<Rightarrow> 'u env \<Rightarrow> (rejection, unit, 'u env) outcome" where
  "getRender appName appContent container legacyRender props phase s =
     (case legacyRender of
        Some legacy \<Rightarrow>
          legacy (loading props) (if element props \<noteq> None then Some appContent else None) s
      | None \<Rightarrow>
          let containerElement =
                getContainer (dom s)
                  (if truthy (remountContainer props) then remountContainer props else container)
          in await
               (if phase \<noteq> Unmounted
                then assertElementExist containerElement (Some (errorMsg appName container phase)) s
                else Resolved () s)
               (\<lambda>_ s.
                  case containerElement of
                    None \<Rightarrow> Resolved () s
                  | Some c \<Rightarrow>
                      if \<not> contains (dom s) c (element props) then
                        let d1 = clearContainer (dom s) c
                        in case element props of
                             None \<Rightarrow> Resolved () (s\<lparr>dom := d1\<rparr>)
                           | Some e \<Rightarrow>
                               (case appendChild d1 c e of
                                  None \<Rightarrow>
                                    Rejected (DOMException ''HierarchyRequestError'') (s\<lparr>dom := d1\<rparr>)
                                | Some d2 \<Rightarrow> Resolved () (s\<lparr>dom := d2\<rparr>))
                      else Resolved () s))"

section \<open>Applications, configuration and collaborators\<close>

text \<open>
  The global object handed to hooks and scripts: the window, or the proxy of a sandbox.
\<close>

datatype global_ref = Window | Proxy string

text \<open>
  \<^verbatim>\<open>LoadableApp\<close>: name, entry, and either a container or a legacy render function
  (\<^verbatim>\<open>'container' in app ? app.container : undefined\<close>, likewise \<^verbatim>\<open>render\<close>).
\<close>

record 'u loadable_app =
  app_name :: string
  app_entry :: string
  app_container :: "container_ref option"
  app_render :: "'u legacy_render option"

type_synonym 'u life_cycle_fn = "('u loadable_app, global_ref, rejection, 'u env) hook"

text \<open>\<^verbatim>\<open>FrameworkLifeCycles\<close>, each entry already an array (\<^verbatim>\<open>toArray\<close>); a missing entry is empty.\<close>

record 'u framework_life_cycles =
  beforeLoad :: "'u life_cycle_fn list"
  beforeMount :: "'u life_cycle_fn list"
  afterMount :: "'u life_cycle_fn list"
  beforeUnmount :: "'u life_cycle_fn list"
  afterUnmount :: "'u life_cycle_fn list"

text \<open>
  \<^verbatim>\<open>FrameworkConfiguration['singular']\<close>: a boolean, or a function of the application that
  returns a promise of a boolean. The function is code of the page: it may read and
  change the environment, reject, or never settle.
\<close>

datatype 'u singular_policy =
    SingularFlag bool
  | SingularFn "'u loadable_app \<Rightarrow> 'u env \<Rightarrow> (rejection, bool, 'u env) outcome"

text \<open>
  \<^verbatim>\<open>FrameworkConfiguration['sandbox']\<close>: a boolean, or an object with the flags
  \<^verbatim>\<open>strictStyleIsolation\<close>, \<^verbatim>\<open>experimentalStyleIsolation\<close> and \<^verbatim>\<open>loose\<close>.
\<close>

datatype sandbox_option = SandboxFlag bool | SandboxObject bool bool bool

record 'u framework_configuration =
  cfg_singular :: "'u singular_policy option"
  cfg_sandbox :: "sandbox_option option"

text \<open>
  The lifecycle functions a bundle exports. The mount and unmount functions get the
  container the loader computed for them.
\<close>

record 'u life_cycles =
  lc_bootstrap :: "'u env \<Rightarrow> (rejection, unit, 'u env) outcome"
  lc_mount :: "node option \<Rightarrow> 'u env \<Rightarrow> (rejection, unit, 'u env) outcome"
  lc_unmount :: "node option \<Rightarrow> 'u env \<Rightarrow> (rejection, unit, 'u env) outcome"
  lc_update :: "('u env \<Rightarrow> (rejection, unit, 'u env) outcome) option"

text \<open>
  What \<^verbatim>\<open>importEntry\<close> resolves with. The exports of the scripts are \<open>Some\<close> lifecycle
  functions when \<^verbatim>\<open>validateExportLifecycle\<close> accepts them and \<open>None\<close> otherwise.
\<close>

record 'u import_entry =
  ie_template :: string
  execScripts ::
    "global_ref \<Rightarrow> bool \<Rightarrow> 'u env \<Rightarrow> (rejection, 'u life_cycles option, 'u env) outcome"
  assetPublicPath :: string

record 'u sandbox_instance =
  proxy :: global_ref
  sandbox_mount :: "'u env \<Rightarrow> (rejection, unit, 'u env) outcome"
  sandbox_unmount :: "'u env \<Rightarrow> (rejection, unit, 'u env) outcome"

text \<open>
  The collaborators of the loader that are not part of the sources at hand are parameters
  of the model: the content loader (\<^verbatim>\<open>import-html-entry\<close>), the sandbox, the add-ons, the
  CSS scoping, the state bus, and from \<^verbatim>\<open>utils\<close> the wrapper id, the scoped-CSS test and the
  XPath of an element. \<open>globalExports\<close> is \<^verbatim>\<open>global[appName]\<close> as \<^verbatim>\<open>validateExportLifecycle\<close>
  sees it.
\<close>

record 'u externals =
  importEntry :: "string \<Rightarrow> 'u env \<Rightarrow> (rejection, 'u import_entry, 'u env) outcome"
  getWrapperId :: "string \<Rightarrow> string"
  isEnableScopedCSS :: "sandbox_option \<Rightarrow> bool"
  cssProcess :: "node \<Rightarrow> string \<Rightarrow> 'u env \<Rightarrow> 'u env"
  qiankunCSSRewriteAttr :: string
  createSandbox :: "string \<Rightarrow> bool \<Rightarrow> bool \<Rightarrow> 'u sandbox_instance"
  getAddOns :: "global_ref \<Rightarrow> string \<Rightarrow> 'u framework_life_cycles"
  globalExports :: "global_ref \<Rightarrow> string \<Rightarrow> 'u env \<Rightarrow> 'u life_cycles option"
  offGlobalStateChange :: "string \<Rightarrow> 'u env \<Rightarrow> 'u env"
  getXPathForElement :: "node \<Rightarrow> document \<Rightarrow> string option"

section \<open>validateSingularMode\<close>

text \<open>
  \<^verbatim>\<open>
  async function validateSingularMode(validate, app): Promise<boolean> {
    return typeof validate === 'function' ? validate(app) : !!validate;
  }
  \<close>
\<close>

definition validateSingularMode ::
  "'u singular_policy \<Rightarrow> 'u loadable_app \<Rightarrow> 'u env \<Rightarrow> (rejection, bool, 'u env) outcome" where
  "validateSingularMode validate app s =
     (case validate of
        SingularFn f \<Rightarrow> f app s
      | SingularFlag b \<Rightarrow> Resolved b s)"

section \<open>The state of the loader\<close>

text \<open>
  \<^verbatim>\<open>new Deferred<void>()\<close> makes an object with a promise and a \<^verbatim>\<open>resolve\<close> function. The
  objects made so far are kept in a list and addressed by position. \<open>creator\<close> and
  \<open>resolver\<close> are not in the source: they record, for the ownership claim only, the load
  whose step made the object and the load whose step resolved it. Resolving a resolved
  promise does nothing.
\<close>

record deferred =
  resolved :: bool
  creator :: nat
  resolver :: "nat option"

text \<open>
  What one call of \<^verbatim>\<open>loadApp\<close> leaves in the closure of its \<^verbatim>\<open>parcelConfigGetter\<close>. \<open>loadNo\<close>
  numbers the calls of \<^verbatim>\<open>loadApp\<close>; it stands for the identity of the closure and addresses
  the closure's variable \<^verbatim>\<open>appWrapperElement\<close>, which the steps assign. The other fields are
  the constants \<^verbatim>\<open>app\<close>, \<^verbatim>\<open>appInstanceId\<close>, \<^verbatim>\<open>appContent\<close>, \<^verbatim>\<open>strictStyleIsolation\<close>,
  \<^verbatim>\<open>enableScopedCSS\<close>, \<^verbatim>\<open>singular\<close>, \<^verbatim>\<open>global\<close>, \<^verbatim>\<open>mountSandbox\<close>, \<^verbatim>\<open>unmountSandbox\<close>, the
  merged hooks, and the lifecycle functions taken from the exports.
\<close>

record 'u loaded =
  loadNo :: nat
  loadedApp :: "'u loadable_app"
  instanceId :: string
  wrapperContent :: app_content
  strictIsolation :: bool
  scopedCSS :: bool
  singularMode :: "'u singular_policy"
  globalObject :: global_ref
  mountSandbox :: "'u env \<Rightarrow> (rejection, unit, 'u env) outcome"
  unmountSandbox :: "'u env \<Rightarrow> (rejection, unit, 'u env) outcome"
  lifeCycleHooks :: "'u framework_life_cycles"
  exportedLifeCycles :: "'u life_cycles"

text \<open>A promise kept in a variable: fulfilled, rejected, or not settled.\<close>

datatype 'a promise = Fulfilled 'a | Failed rejection | Unsettled "nat option"

text \<open>
  The state: the environment, and the variables of the modules, which no code of the
  page can reach: \<^verbatim>\<open>prevAppUnmountedDeferred\<close> (\<open>None\<close> is \<^verbatim>\<open>undefined\<close>) with the deferred
  objects, the \<^verbatim>\<open>appWrapperElement\<close> of each load, and, of the module that exports
  \<^verbatim>\<open>loadMicroApp\<close>, \<^verbatim>\<open>frameworkConfiguration\<close> and \<^verbatim>\<open>appConfigPormiseGetterMap\<close>.
\<close>

record 'u world =
  env :: "'u env"
  prevAppUnmountedDeferred :: "nat option"
  deferreds :: "deferred list"
  appWrapperElement :: "nat \<Rightarrow> node option"
  loadCount :: nat
  frameworkConfiguration :: "'u framework_configuration"
  appConfigPormiseGetterMap :: "string \<Rightarrow> 'u loaded promise option"

text \<open>
  Code of the page runs on the environment. A promise of such code that never settles
  waits for none of the loader's deferred objects.
\<close>

definition lift_env ::
  "('u env \<Rightarrow> (rejection, 'a, 'u env) outcome) \<Rightarrow> 'u world \<Rightarrow> (rejection, 'a, 'u world) outcome" where
  "lift_env f w =
     (case f (env w) of
        Resolved a s \<Rightarrow> Resolved a (w\<lparr>env := s\<rparr>)
      | Rejected e s \<Rightarrow> Rejected e (w\<lparr>env := s\<rparr>)
      | Pending d s \<Rightarrow> Pending None (w\<lparr>env := s\<rparr>))"

definition newDeferred :: "nat \<Rightarrow> 'u world \<Rightarrow> nat \<times> 'u world" where
  "newDeferred maker w =
     (length (deferreds w),
      w\<lparr>deferreds := deferreds w @ [\<lparr>resolved = False, creator = maker, resolver = None\<rparr>]\<rparr>)"

definition resolveDeferred :: "nat \<Rightarrow> nat \<Rightarrow> 'u world \<Rightarrow> 'u world" where
  "resolveDeferred caller d w =
     (if d < length (deferreds w) \<and> \<not> resolved (deferreds w ! d) then
        w\<lparr>deferreds :=
            (deferreds w)[d := (deferreds w ! d)\<lparr>resolved := True, resolver := Some caller\<rparr>]\<rparr>
      else w)"

text \<open>\<^verbatim>\<open>await deferred.promise\<close>\<close>

definition deferredPromise :: "nat \<Rightarrow> 'u world \<Rightarrow> (rejection, unit, 'u world) outcome" where
  "deferredPromise d w =
     (if d < length (deferreds w) \<and> resolved (deferreds w ! d) then Resolved () w
      else Pending (Some d) w)"

section \<open>getAppWrapperGetter\<close>

text \<open>
  \<^verbatim>\<open>
  return () => {
    if (useLegacyRender) {
      if (strictStyleIsolation) throw new Error('[qiankun]: strictStyleIsolation can not be used with legacy render!');
      if (enableScopedCSS) throw new Error('[qiankun]: experimentalStyleIsolation can not be used with legacy render!');
      const appWrapper = document.getElementById(getWrapperId(appInstanceId));
      assertElementExist(appWrapper, `[qiankun] Wrapper element for ${appName} with instance ${appInstanceId} is not existed!`);
      return appWrapper!;
    }
    const element = elementGetter();
    assertElementExist(element, `[qiankun] Wrapper element for ${appName} with instance ${appInstanceId} is not existed!`);
    if (enableScopedCSS) {
      const attr = element!.getAttribute(css.QiankunCSSRewriteAttr);
      if (!attr) {
        element!.setAttribute(css.QiankunCSSRewriteAttr, appName);
      }
    }
    if (strictStyleIsolation) {
      return element!.shadowRoot!;
    }
    return element!;
  };
  \<close>
\<close>

definition wrapperMissing :: "string \<Rightarrow> string \<Rightarrow> string" where
  "wrapperMissing appName appInstanceId =
     ''[qiankun] Wrapper element for '' @ appName @ '' with instance '' @ appInstanceId
       @ '' is not existed!''"

definition setAttribute :: "node \<Rightarrow> string \<Rightarrow> string \<Rightarrow> 'u env \<Rightarrow> 'u env" where
  "setAttribute el a v s =
     s\<lparr>dom := (dom s)\<lparr>attributes := (attributes (dom s))(el := (attributes (dom s) el)(a \<mapsto> v))\<rparr>\<rparr>"

definition getAppWrapperGetter ::
  "'u externals \<Rightarrow> string \<Rightarrow> string \<Rightarrow> bool \<Rightarrow> bool \<Rightarrow> bool \<Rightarrow> ('u world \<Rightarrow> node option) \<Rightarrow>
   'u world \<Rightarrow> (rejection, node option, 'u world) outcome" where
  "getAppWrapperGetter ext appName appInstanceId useLegacyRender strictStyleIsolation
       enableScopedCSS elementGetter w =
     (if useLegacyRender then
        if strictStyleIsolation then
          Rejected (Error ''[qiankun]: strictStyleIsolation can not be used with legacy render!'') w
        else if enableScopedCSS then
          Rejected (Error ''[qiankun]: experimentalStyleIsolation can not be used with legacy render!'') w
        else
          let appWrapper = elementIds (dom (env w)) (getWrapperId ext appInstanceId)
          in await (assertElementExist appWrapper (Some (wrapperMissing appName appInstanceId)) w)
               (\<lambda>_ w. Resolved appWrapper w)
      else
        let element = elementGetter w
        in await (assertElementExist element (Some (wrapperMissing appName appInstanceId)) w)
             (\<lambda>_ w.
                case element of
                  None \<Rightarrow> Resolved None w
                | Some el \<Rightarrow>
                    let w1 =
                          (if enableScopedCSS then
                             (case attributes (dom (env w)) el (qiankunCSSRewriteAttr ext) of
                                None \<Rightarrow>
                                  w\<lparr>env := setAttribute el (qiankunCSSRewriteAttr ext) appName (env w)\<rparr>
                              | Some attr \<Rightarrow>
                                  if attr = [] then
                                    w\<lparr>env := setAttribute el (qiankunCSSRewriteAttr ext) appName (env w)\<rparr>
                                  else w)
                           else w)
                    in if strictStyleIsolation then Resolved (shadowRoot (dom (env w1)) el) w1
                       else Resolved (Some el) w1))"

section \<open>getLifecyclesFromExports\<close>

text \<open>
  \<^verbatim>\<open>
  function getLifecyclesFromExports(scriptExports, appName, global) {
    if (validateExportLifecycle(scriptExports)) { return scriptExports; }
    const globalVariableExports = (global as any)[appName];
    if (validateExportLifecycle(globalVariableExports)) { return globalVariableExports; }
    throw new Error(`[qiankun] You need to export lifecycle functions in ${appName} entry`);
  }
  \<close>
\<close>

definition getLifecyclesFromExports ::
  "'u externals \<Rightarrow> 'u life_cycles option \<Rightarrow> string \<Rightarrow> global_ref \<Rightarrow> 'u env \<Rightarrow>
   (rejection, 'u life_cycles, 'u env) outcome" where
  "getLifecyclesFromExports ext scriptExports appName global s =
     (case scriptExports of
        Some lc \<Rightarrow> Resolved lc s
      | None \<Rightarrow>
          (case globalExports ext global appName s of
             Some lc \<Rightarrow> Resolved lc s
           | None \<Rightarrow>
               Rejected (Error (''[qiankun] You need to export lifecycle functions in ''
                                 @ appName @ '' entry'')) s))"

section \<open>loadApp\<close>

text \<open>Decimal digits of a number, as a template string prints it.\<close>

fun showNat :: "nat \<Rightarrow> string" where
  "showNat n =
     (if n < 10 then [''0123456789'' ! n]
      else showNat (n div 10) @ [''0123456789'' ! (n mod 10)])"

declare showNat.simps [simp del]

text \<open>
  \<^verbatim>\<open>
  const appInstanceId = `${appName}_${+new Date()}_${Math.floor(Math.random() * 1000)}`;
  \<close>
  from the name, the time in milliseconds and the value \<^verbatim>\<open>Math.random()\<close> returned.
\<close>

definition genAppInstanceId :: "string \<Rightarrow> nat \<Rightarrow> real \<Rightarrow> string" where
  "genAppInstanceId appName date random =
     appName @ ''_'' @ showNat date @ ''_'' @ showNat (nat \<lfloor>random * 1000\<rfloor>)"

definition mathRandom :: "'u env \<Rightarrow> real \<times> 'u env" where
  "mathRandom s = (randoms s (drawn s), s\<lparr>drawn := Suc (drawn s)\<rparr>)"

text \<open>
  \<^verbatim>\<open>mergeWith({}, getAddOns(global, assetPublicPath), lifeCycles, (v1, v2) => concat(v1 ?? [], v2 ?? []))\<close>
\<close>

definition mergeLifeCycles ::
  "'u framework_life_cycles \<Rightarrow> 'u framework_life_cycles \<Rightarrow> 'u framework_life_cycles" where
  "mergeLifeCycles addOns lifeCycles =
     \<lparr>beforeLoad = beforeLoad addOns @ beforeLoad lifeCycles,
      beforeMount = beforeMount addOns @ beforeMount lifeCycles,
      afterMount = afterMount addOns @ afterMount lifeCycles,
      beforeUnmount = beforeUnmount addOns @ beforeUnmount lifeCycles,
      afterUnmount = afterUnmount addOns @ afterUnmount lifeCycles\<rparr>"

text \<open>
  \<^verbatim>\<open>if (await validateSingularMode(singular, app)) { await (prev && prev.promise); }\<close> and the
  second step of mounting: wait for the installed deferred object, if there is one.
\<close>

definition waitForPrevApp :: "bool \<Rightarrow> 'u world \<Rightarrow> (rejection, unit, 'u world) outcome" where
  "waitForPrevApp validated w =
     (if validated then
        (case prevAppUnmountedDeferred w of
           Some d \<Rightarrow> deferredPromise d w
         | None \<Rightarrow> Resolved () w)
      else Resolved () w)"

definition noop :: "'s \<Rightarrow> ('e, unit, 's) outcome" where
  "noop s = Resolved () s"

text \<open>
  \<open>loadApp\<close> follows the source from the instance id to the returned
  \<^verbatim>\<open>parcelConfigGetter\<close>, whose closure is the result here. The performance marks of
  development builds leave no trace in the state and are left out. The sandbox is built
  from the name and the two flags; the wrapper getter and the asset filter it is also
  given are not modelled. The scoped-CSS pass over the style nodes of the wrapper is the
  collaborator \<open>cssProcess\<close>.
\<close>

definition loadApp ::
  "'u externals \<Rightarrow> 'u loadable_app \<Rightarrow> 'u framework_configuration \<Rightarrow> 'u framework_life_cycles \<Rightarrow>
   'u world \<Rightarrow> (rejection, 'u loaded, 'u world) outcome" where
  "loadApp ext app configuration lifeCycles w =
     (let appName = app_name app;
          date = now (env w);
          (random, s1) = mathRandom (env w);
          appInstanceId = genAppInstanceId appName date random;
          singular = (case cfg_singular configuration of None \<Rightarrow> SingularFlag False | Some p \<Rightarrow> p);
          sandbox = (case cfg_sandbox configuration of None \<Rightarrow> SandboxFlag True | Some b \<Rightarrow> b);
          no = loadCount w
      in await (lift_env (importEntry ext (app_entry app)) (w\<lparr>env := s1, loadCount := Suc no\<rparr>))
        (\<lambda>entry w.
      await (lift_env (validateSingularMode singular app) w)
        (\<lambda>validated w.
      await (waitForPrevApp validated w)
        (\<lambda>_ w.
          let appContent = \<lparr>wrapperId = getWrapperId ext appInstanceId, dataName = appName,
                          template = ie_template entry\<rparr>;
              strictStyleIsolation = (case sandbox of SandboxObject st _ _ \<Rightarrow> st | SandboxFlag _ \<Rightarrow> False);
              (wrapper, s2) = createElement appContent strictStyleIsolation (env w);
              enableScopedCSS = isEnableScopedCSS ext sandbox;
              s3 = (case wrapper of
                      Some el \<Rightarrow> if enableScopedCSS then cssProcess ext el appName s2 else s2
                    | None \<Rightarrow> s2);
              container = app_container app;
              legacyRender = app_render app
          in await (lift_env (getRender appName appContent container legacyRender
                                \<lparr>element = wrapper, loading = True, remountContainer = None\<rparr> Loading)
                      (w\<lparr>env := s3, appWrapperElement := (appWrapperElement w)(no := wrapper)\<rparr>))
        (\<lambda>_ w.
          let useLooseSandbox = (case sandbox of SandboxObject _ _ lo \<Rightarrow> lo | SandboxFlag _ \<Rightarrow> False);
              sandboxOn = (case sandbox of SandboxObject _ _ _ \<Rightarrow> True | SandboxFlag b \<Rightarrow> b);
              sandboxInstance = createSandbox ext appName enableScopedCSS useLooseSandbox;
              global = (if sandboxOn then proxy sandboxInstance else Window);
              mountSb = (if sandboxOn then sandbox_mount sandboxInstance else noop);
              unmountSb = (if sandboxOn then sandbox_unmount sandboxInstance else noop);
              merged = mergeLifeCycles (getAddOns ext global (assetPublicPath entry)) lifeCycles
          in await (lift_env (execHooksChain (beforeLoad merged) app global) w)
        (\<lambda>_ w.
      await (lift_env (execScripts entry global (\<not> useLooseSandbox)) w)
        (\<lambda>scriptExports w.
      await (lift_env (getLifecyclesFromExports ext scriptExports appName global) w)
        (\<lambda>lifecycles w.
          Resolved
            \<lparr>loadNo = no, loadedApp = app, instanceId = appInstanceId,
             wrapperContent = appContent, strictIsolation = strictStyleIsolation,
             scopedCSS = enableScopedCSS, singularMode = singular, globalObject = global,
             mountSandbox = mountSb, unmountSandbox = unmountSb, lifeCycleHooks = merged,
             exportedLifeCycles = lifecycles\<rparr> w))))))))"

section \<open>parcelConfigGetter\<close>

type_synonym 'u step = "'u world \<Rightarrow> (rejection, unit, 'u world) outcome"

text \<open>The render function and the wrapper getter of a closure.\<close>

definition render ::
  "'u loaded \<Rightarrow> render_props \<Rightarrow> phase \<Rightarrow> 'u env \<Rightarrow> (rejection, unit, 'u env) outcome" where
  "render l =
     getRender (app_name (loadedApp l)) (wrapperContent l) (app_container (loadedApp l))
       (app_render (loadedApp l))"

definition appWrapperGetter ::
  "'u externals \<Rightarrow> 'u loaded \<Rightarrow> 'u world \<Rightarrow> (rejection, node option, 'u world) outcome" where
  "appWrapperGetter ext l =
     getAppWrapperGetter ext (app_name (loadedApp l)) (instanceId l)
       (app_render (loadedApp l) \<noteq> None) (strictIsolation l) (scopedCSS l)
       (\<lambda>w. appWrapperElement w (loadNo l))"

subsection \<open>The steps of mounting\<close>

text \<open>
  \<^verbatim>\<open>
  async () => {
    if ((await validateSingularMode(singular, app)) && prevAppUnmountedDeferred) {
      return prevAppUnmountedDeferred.promise;
    }
    return undefined;
  }
  \<close>
\<close>

definition waitSingular :: "'u loaded \<Rightarrow> 'u step" where
  "waitSingular l w =
     await (lift_env (validateSingularMode (singularMode l) (loadedApp l)) w) waitForPrevApp"

text \<open>
  \<^verbatim>\<open>
  async () => {
    appWrapperElement = appWrapperElement || createElement(appContent, strictStyleIsolation);
    render({ element: appWrapperElement, loading: true, remountContainer }, 'mounting');
  }
  \<close>
\<close>

definition renderMounting :: "'u loaded \<Rightarrow> container_ref option \<Rightarrow> 'u step" where
  "renderMounting l remount w =
     (let w1 =
            (case appWrapperElement w (loadNo l) of
               Some el \<Rightarrow> w
             | None \<Rightarrow>
                 let (wrapper, s1) = createElement (wrapperContent l) (strictIsolation l) (env w)
                 in w\<lparr>env := s1, appWrapperElement := (appWrapperElement w)(loadNo l := wrapper)\<rparr>)
      in lift_env
           (render l \<lparr>element = appWrapperElement w1 (loadNo l), loading = True,
                      remountContainer = remount\<rparr> Mounting) w1)"

text \<open>\<^verbatim>\<open>async () => execHooksChain(toArray(beforeMount), app, global)\<close>, and likewise the others.\<close>

definition hooksStep :: "'u loaded \<Rightarrow> 'u life_cycle_fn list \<Rightarrow> 'u step" where
  "hooksStep l chain = lift_env (execHooksChain chain (loadedApp l) (globalObject l))"

text \<open>
  \<^verbatim>\<open>async (props) => mount({ ...props, container: appWrapperGetter(), setGlobalState, onGlobalStateChange })\<close>
\<close>

definition mountApp :: "'u externals \<Rightarrow> 'u loaded \<Rightarrow> 'u step" where
  "mountApp ext l w =
     await (appWrapperGetter ext l w) (\<lambda>container. lift_env (lc_mount (exportedLifeCycles l) container))"

text \<open>
  \<^verbatim>\<open>async () => render({ element: appWrapperElement, loading: false, remountContainer }, 'mounted')\<close>
\<close>

definition renderMounted :: "'u loaded \<Rightarrow> container_ref option \<Rightarrow> 'u step" where
  "renderMounted l remount w =
     lift_env
       (render l \<lparr>element = appWrapperElement w (loadNo l), loading = False,
                  remountContainer = remount\<rparr> Mounted) w"

text \<open>
  \<^verbatim>\<open>
  async () => {
    if (await validateSingularMode(singular, app)) {
      prevAppUnmountedDeferred = new Deferred<void>();
    }
  }
  \<close>
\<close>

definition issueDeferred :: "'u loaded \<Rightarrow> 'u step" where
  "issueDeferred l w =
     await (lift_env (validateSingularMode (singularMode l) (loadedApp l)) w)
       (\<lambda>validated w.
          if validated then
            let (d, w1) = newDeferred (loadNo l) w
            in Resolved () (w1\<lparr>prevAppUnmountedDeferred := Some d\<rparr>)
          else Resolved () w)"

text \<open>
  The array \<^verbatim>\<open>mount\<close> of the parcel config. Its first and last entries only set performance
  marks, in development builds.
\<close>

definition mountSteps :: "'u externals \<Rightarrow> 'u loaded \<Rightarrow> container_ref option \<Rightarrow> 'u step list" where
  "mountSteps ext l remount =
     [noop,
      waitSingular l,
      renderMounting l remount,
      lift_env (mountSandbox l),
      hooksStep l (beforeMount (lifeCycleHooks l)),
      mountApp ext l,
      renderMounted l remount,
      hooksStep l (afterMount (lifeCycleHooks l)),
      issueDeferred l,
      noop]"

subsection \<open>The steps of unmounting\<close>

text \<open>\<^verbatim>\<open>async (props) => unmount({ ...props, container: appWrapperGetter() })\<close>\<close>

definition unmountApp :: "'u externals \<Rightarrow> 'u loaded \<Rightarrow> 'u step" where
  "unmountApp ext l w =
     await (appWrapperGetter ext l w) (\<lambda>container. lift_env (lc_unmount (exportedLifeCycles l) container))"

text \<open>
  \<^verbatim>\<open>
  async () => {
    render({ element: null, loading: false, remountContainer }, 'unmounted');
    offGlobalStateChange(appInstanceId);
    // for gc
    appWrapperElement = null;
  }
  \<close>
\<close>

definition renderUnmounted :: "'u externals \<Rightarrow> 'u loaded \<Rightarrow> container_ref option \<Rightarrow> 'u step" where
  "renderUnmounted ext l remount w =
     await (lift_env
              (render l \<lparr>element = None, loading = False, remountContainer = remount\<rparr> Unmounted) w)
       (\<lambda>_ w.
          Resolved ()
            (w\<lparr>env := offGlobalStateChange ext (instanceId l) (env w),
               appWrapperElement := (appWrapperElement w)(loadNo l := None)\<rparr>))"

text \<open>
  \<^verbatim>\<open>
  async () => {
    if ((await validateSingularMode(singular, app)) && prevAppUnmountedDeferred) {
      prevAppUnmountedDeferred.resolve();
    }
  }
  \<close>
\<close>

definition resolvePrevApp :: "'u loaded \<Rightarrow> 'u step" where
  "resolvePrevApp l w =
     await (lift_env (validateSingularMode (singularMode l) (loadedApp l)) w)
       (\<lambda>validated w.
          if validated then
            (case prevAppUnmountedDeferred w of
               Some d \<Rightarrow> Resolved () (resolveDeferred (loadNo l) d w)
             | None \<Rightarrow> Resolved () w)
          else Resolved () w)"

definition unmountSteps :: "'u externals \<Rightarrow> 'u loaded \<Rightarrow> container_ref option \<Rightarrow> 'u step list" where
  "unmountSteps ext l remount =
     [hooksStep l (beforeUnmount (lifeCycleHooks l)),
      unmountApp ext l,
      lift_env (unmountSandbox l),
      hooksStep l (afterUnmount (lifeCycleHooks l)),
      renderUnmounted ext l remount,
      resolvePrevApp l]"

subsection \<open>The parcel config\<close>

record 'u parcel_config =
  name :: string
  bootstrap :: "'u step"
  mount :: "'u step list"
  unmount :: "'u step list"
  update :: "'u step option"

text \<open>
  \<^verbatim>\<open>
  const parcelConfigGetter = (remountContainer) => {
    const parcelConfig = { name: appInstanceId, bootstrap, mount: [...], unmount: [...] };
    if (typeof update === 'function') { parcelConfig.update = update; }
    return parcelConfig;
  };
  \<close>
\<close>

definition parcelConfigGetter ::
  "'u externals \<Rightarrow> 'u loaded \<Rightarrow> container_ref option \<Rightarrow> 'u parcel_config" where
  "parcelConfigGetter ext l remount =
     \<lparr>name = instanceId l,
      bootstrap = lift_env (lc_bootstrap (exportedLifeCycles l)),
      mount = mountSteps ext l remount,
      unmount = unmountSteps ext l remount,
      update = map_option lift_env (lc_update (exportedLifeCycles l))\<rparr>"

section \<open>The switching engine\<close>

text \<open>
  Modelled from the spec: the engine that runs the steps of a parcel config
  (\<^verbatim>\<open>single-spa\<close>) is not part of the sources at hand. Section 3 of the specification:
  the mount and unmount steps execute strictly in their declared order and a rejection
  aborts the remaining steps without rollback. Section 5: scheduling is cooperative on
  one event loop, every step is a suspension point, and steps of distinct instances may
  interleave.
\<close>

fun runSteps :: "('s \<Rightarrow> ('e, unit, 's) outcome) list \<Rightarrow> 's \<Rightarrow> ('e, unit, 's) outcome" where
  "runSteps [] s = Resolved () s"
| "runSteps (f # fs) s = await (f s) (\<lambda>_. runSteps fs)"

text \<open>
  A sequence of steps in flight: the steps still to run; or waiting for a deferred object,
  with the steps that follow; or waiting for a promise that never settles; or failed.
\<close>

datatype 'u task =
    Running "'u step list"
  | Awaiting nat "'u step list"
  | Stalled
  | Broken rejection

fun advance :: "'u task \<Rightarrow> 'u world \<Rightarrow> 'u task \<times> 'u world" where
  "advance (Running []) w = (Running [], w)"
| "advance (Running (f # fs)) w =
     (case f w of
        Resolved _ w' \<Rightarrow> (Running fs, w')
      | Rejected e w' \<Rightarrow> (Broken e, w')
      | Pending (Some d) w' \<Rightarrow> (Awaiting d fs, w')
      | Pending None w' \<Rightarrow> (Stalled, w'))"
| "advance (Awaiting d fs) w =
     (case deferredPromise d w of
        Resolved _ _ \<Rightarrow> (Running fs, w)
      | Rejected _ _ \<Rightarrow> (Awaiting d fs, w)
      | Pending _ _ \<Rightarrow> (Awaiting d fs, w))"
| "advance Stalled w = (Stalled, w)"
| "advance (Broken e) w = (Broken e, w)"

text \<open>A schedule names, turn by turn, the task that advances by one step.\<close>

fun interleave :: "nat list \<Rightarrow> 'u task list \<times> 'u world \<Rightarrow> 'u task list \<times> 'u world" where
  "interleave [] c = c"
| "interleave (i # schedule) (tasks, w) =
     (if i < length tasks
      then let (t, w') = advance (tasks ! i) w in interleave schedule (tasks[i := t], w')
      else interleave schedule (tasks, w))"

text \<open>What an outcome leaves behind: the state, the value, the promise.\<close>

definition stateOf :: "('e, 'a, 's) outcome \<Rightarrow> 's" where
  "stateOf p = (case p of Resolved _ s \<Rightarrow> s | Rejected _ s \<Rightarrow> s | Pending _ s \<Rightarrow> s)"


definition isResolved :: "('e, 'a, 's) outcome \<Rightarrow> bool" where
  "isResolved p = (case p of Resolved _ _ \<Rightarrow> True | Rejected _ _ \<Rightarrow> False | Pending _ _ \<Rightarrow> False)"

text \<open>A property of the value, if the outcome is a value.\<close>

definition resolvesWith :: "('a \<Rightarrow> bool) \<Rightarrow> ('e, 'a, 's) outcome \<Rightarrow> bool" where
  "resolvesWith Q p =
     (case p of Resolved a _ \<Rightarrow> Q a | Rejected _ _ \<Rightarrow> True | Pending _ _ \<Rightarrow> True)"

definition promiseOf :: "(rejection, 'a, 's) outcome \<Rightarrow> 'a promise" where
  "promiseOf p =
     (case p of Resolved a _ \<Rightarrow> Fulfilled a | Rejected e _ \<Rightarrow> Failed e | Pending d _ \<Rightarrow> Unsettled d)"

definition awaitPromise :: "'a promise \<Rightarrow> 's \<Rightarrow> (rejection, 'a, 's) outcome" where
  "awaitPromise p s =
     (case p of Fulfilled a \<Rightarrow> Resolved a s | Failed e \<Rightarrow> Rejected e s | Unsettled d \<Rightarrow> Pending d s)"

text \<open>
  Transitions run one at a time: a mount or an unmount of the closure with the given
  index starts only when the transition before it has settled, an instance is mounted
  only while it is not mounted and unmounted only while it is. The run keeps the list of
  mounted instances; it is \<open>None\<close> when the sequence of transitions breaks these rules or
  a transition does not settle.
\<close>

datatype transition = Mount nat | Unmount nat

fun sequentially ::
  "'u externals \<Rightarrow> 'u loaded list \<Rightarrow> transition list \<Rightarrow> 'u world \<times> nat list \<Rightarrow>
   ('u world \<times> nat list) option" where
  "sequentially ext ls [] c = Some c"
| "sequentially ext ls (Mount i # ts) (w, mounted) =
     (if i < length ls \<and> i \<notin> set mounted then
        (case runSteps (mount (parcelConfigGetter ext (ls ! i) None)) w of
           Resolved _ w' \<Rightarrow> sequentially ext ls ts (w', i # mounted)
         | Rejected _ w' \<Rightarrow> sequentially ext ls ts (w', mounted)
         | Pending _ _ \<Rightarrow> None)
      else None)"
| "sequentially ext ls (Unmount i # ts) (w, mounted) =
     (if i < length ls \<and> i \<in> set mounted then
        (case runSteps (unmount (parcelConfigGetter ext (ls ! i) None)) w of
           Resolved _ w' \<Rightarrow> sequentially ext ls ts (w', removeAll i mounted)
         | Rejected _ w' \<Rightarrow> sequentially ext ls ts (w', removeAll i mounted)
         | Pending _ _ \<Rightarrow> None)
      else None)"

text \<open>The deferred objects that are not resolved.\<close>

definition unresolved :: "'u world \<Rightarrow> nat list" where
  "unresolved w = filter (\<lambda>d. \<not> resolved (deferreds w ! d)) [0..<length (deferreds w)]"

section \<open>loadMicroApp\<close>

text \<open>
  \<^verbatim>\<open>
  const getContainerXpath = (container: string | HTMLElement): string | void => {
    const containerElement = getContainer(container)
    if (containerElement) {
      return getXPathForElement(containerElement, document)
    }
    return undefined
  }
  \<close>
\<close>

definition getContainerXpath :: "'u externals \<Rightarrow> container_ref option \<Rightarrow> 'u world \<Rightarrow> string option" where
  "getContainerXpath ext container w =
     (case getContainer (dom (env w)) container of
        Some containerElement \<Rightarrow> getXPathForElement ext containerElement (dom (env w))
      | None \<Rightarrow> None)"

text \<open>
  \<^verbatim>\<open>
  const memorizedLoadingFn = async (): Promise<ParcelConfigObject> => {
    const container = 'container' in app ? app.container : undefined
    if (container) {
      const xpath = getContainerXpath(container)
      if (xpath) {
        const parcelConfigGetterPromise = appConfigPormiseGetterMap.get(`${name}-${xpath}`)
        if (parcelConfigGetterPromise) {
          const parcelConfig = (await parcelConfigGetterPromise)(container)
          return {
            ...parcelConfig,
            // empty bootstrap hook which should not run twice while it calling from cached micro app
            bootstrap: () => Promise.resolve(),
          }
        }
      }
    }
    const parcelConfigObjectGetterPromise = loadApp(app, configuration ?? frameworkConfiguration, lifeCycles)
    if (container) {
      const xpath = getContainerXpath(container)
      if (xpath) appConfigPormiseGetterMap.set(`${name}-${xpath}`, parcelConfigObjectGetterPromise)
    }
    return (await parcelConfigObjectGetterPromise)(container)
  }
  \<close>
  The promise of \<^verbatim>\<open>loadApp\<close> is stored in the map as soon as \<^verbatim>\<open>loadApp\<close> has been called,
  under the key computed in the document as it is then, which is the document of the
  call: \<^verbatim>\<open>loadApp\<close> changes the document only after its first \<^verbatim>\<open>await\<close>. Here the load runs
  to its outcome first; the key is taken in the state of the call and the outcome is
  stored in the state the load leaves.
\<close>

definition memorizedLoadingFn ::
  "'u externals \<Rightarrow> 'u loadable_app \<Rightarrow> 'u framework_configuration option \<Rightarrow>
   'u framework_life_cycles \<Rightarrow> 'u world \<Rightarrow> (rejection, 'u parcel_config, 'u world) outcome" where
  "memorizedLoadingFn ext app configuration lifeCycles w =
     (let container = app_container app;
          cached =
            (if truthy container then
               (case getContainerXpath ext container w of
                  Some xpath \<Rightarrow>
                    if xpath \<noteq> [] then appConfigPormiseGetterMap w (app_name app @ ''-'' @ xpath)
                    else None
                | None \<Rightarrow> None)
             else None)
      in case cached of
           Some parcelConfigGetterPromise \<Rightarrow>
             await (awaitPromise parcelConfigGetterPromise w)
               (\<lambda>l w. Resolved ((parcelConfigGetter ext l container)\<lparr>bootstrap := noop\<rparr>) w)
         | None \<Rightarrow>
             let parcelConfigObjectGetterPromise =
                   loadApp ext app
                     (case configuration of Some c \<Rightarrow> c | None \<Rightarrow> frameworkConfiguration w)
                     lifeCycles w;
                 w1 = stateOf parcelConfigObjectGetterPromise;
                 w2 =
                   (if truthy container then
                      (case getContainerXpath ext container w of
                         Some xpath \<Rightarrow>
                           if xpath \<noteq> [] then
                             w1\<lparr>appConfigPormiseGetterMap :=
                                  (appConfigPormiseGetterMap w1)
                                    (app_name app @ ''-'' @ xpath \<mapsto>
                                       promiseOf parcelConfigObjectGetterPromise)\<rparr>
                           else w1
                       | None \<Rightarrow> w1)
                    else w1)
             in await (awaitPromise (promiseOf parcelConfigObjectGetterPromise) w2)
                  (\<lambda>l w. Resolved (parcelConfigGetter ext l container) w))"

text \<open>
  \<^verbatim>\<open>return mountRootParcel(memorizedLoadingFn, { domElement: document.createElement('div'), ...props })\<close>:
  the engine calls the loading function to get the parcel config.
\<close>

definition loadMicroApp ::
  "'u externals \<Rightarrow> 'u loadable_app \<Rightarrow> 'u framework_configuration option \<Rightarrow>
   'u framework_life_cycles \<Rightarrow> 'u world \<Rightarrow> (rejection, 'u parcel_config, 'u world) outcome" where
  "loadMicroApp ext app configuration lifeCycles = memorizedLoadingFn ext app configuration lifeCycles"

section \<open>A sample page\<close>

text \<open>
  A page with two containers, \<open>#a\<close> (node 0) and \<open>#b\<close> (node 1), and a detached element
  (node 2); the same page on a platform without shadow DOM; and the states two render
  calls lead to.
\<close>

definition page :: document where
  "page = \<lparr>children = (\<lambda>_. []), parent = (\<lambda>_. None), innerHTML = (\<lambda>_. []),
            shadowRoot = (\<lambda>_. None), attributes = (\<lambda>_ _. None), allocated = 3,
            selectors = [''#a'' \<mapsto> 0, ''#b'' \<mapsto> 1], elementIds = Map.empty,
            hasAttachShadow = True, hasCreateShadowRoot = False\<rparr>"

definition host :: "nat list env" where
  "host = \<lparr>dom = page, console = [], now = 0, randoms = (\<lambda>n. real n / 10000), drawn = 0, user = []\<rparr>"

definition content :: app_content where
  "content = \<lparr>wrapperId = ''w'', dataName = ''app'', template = ''<p>hello</p>''\<rparr>"

definition toA :: render_props where
  "toA = \<lparr>element = Some 2, loading = False, remountContainer = None\<rparr>"


definition hostA :: "nat list env" where
  "hostA = stateOf (getRender ''app'' content (Some (Selector ''#a'')) None toA Mounted host)"


definition legacyHost :: "nat list env" where
  "legacyHost = host\<lparr>dom := page\<lparr>hasAttachShadow := False\<rparr>\<rparr>"

section \<open>Sample applications\<close>

text \<open>
  Test doubles over a page whose own state is a log of numbers: a hook that records its
  number, and one that records its number and rejects with it.
\<close>

definition logHook ::
  "nat \<Rightarrow> 'a \<Rightarrow> 'g \<Rightarrow> nat list env \<Rightarrow> (rejection, unit, nat list env) outcome" where
  "logHook n app g s = Resolved () (s\<lparr>user := user s @ [n]\<rparr>)"

definition failHook ::
  "nat \<Rightarrow> 'a \<Rightarrow> 'g \<Rightarrow> nat list env \<Rightarrow> (rejection, unit, nat list env) outcome" where
  "failHook n app g s = Rejected (Reason n) (s\<lparr>user := user s @ [n]\<rparr>)"

text \<open>A bundle whose mount function records 6 and whose unmount function records 7.\<close>

definition sampleLifeCycles :: "nat list life_cycles" where
  "sampleLifeCycles =
     \<lparr>lc_bootstrap = noop, lc_mount = (\<lambda>container. logHook 6 () ()),
      lc_unmount = (\<lambda>container. logHook 7 () ()), lc_update = None\<rparr>"

definition sampleEntry :: "nat list import_entry" where
  "sampleEntry =
     \<lparr>ie_template = ''<p>hello</p>'',
      execScripts = (\<lambda>g strict s. Resolved (Some sampleLifeCycles) s),
      assetPublicPath = ''/''\<rparr>"

definition noLifeCycles :: "nat list framework_life_cycles" where
  "noLifeCycles =
     \<lparr>beforeLoad = [], beforeMount = [], afterMount = [], beforeUnmount = [], afterUnmount = []\<rparr>"

definition sampleExt :: "nat list externals" where
  "sampleExt =
     \<lparr>importEntry = (\<lambda>entry s. Resolved sampleEntry s),
      getWrapperId = (\<lambda>i. ''wrapper_'' @ i),
      isEnableScopedCSS = (\<lambda>sandbox. False),
      cssProcess = (\<lambda>el appName s. s),
      qiankunCSSRewriteAttr = ''data-qiankun'',
      createSandbox = (\<lambda>appName scoped loose.
         \<lparr>proxy = Proxy appName, sandbox_mount = noop, sandbox_unmount = noop\<rparr>),
      getAddOns = (\<lambda>g path. noLifeCycles),
      globalExports = (\<lambda>g appName s. None),
      offGlobalStateChange = (\<lambda>i s. s),
      getXPathForElement = (\<lambda>el d. Some (''/node'' @ showNat el))\<rparr>"

definition sampleApp :: "nat list loadable_app" where
  "sampleApp = \<lparr>app_name = ''app'', app_entry = ''//localhost/app'',
                 app_container = Some (Selector ''#a''), app_render = None\<rparr>"

definition noConfig :: "nat list framework_configuration" where
  "noConfig = \<lparr>cfg_singular = None, cfg_sandbox = None\<rparr>"

definition world0 :: "nat list world" where
  "world0 = \<lparr>env = host, prevAppUnmountedDeferred = None, deferreds = [],
              appWrapperElement = (\<lambda>_. None), loadCount = 0,
              frameworkConfiguration = noConfig,
              appConfigPormiseGetterMap = Map.empty\<rparr>"

text \<open>The same state one millisecond later.\<close>

definition laterWorld :: "nat list world" where
  "laterWorld = world0\<lparr>env := host\<lparr>now := 1\<rparr>\<rparr>"

text \<open>The closure the load of \<open>sampleApp\<close> in \<open>world0\<close> returns.\<close>

definition sampleLoaded :: "nat list loaded" where
  "sampleLoaded =
     \<lparr>loadNo = 0, loadedApp = sampleApp, instanceId = ''app_0_0'',
      wrapperContent = \<lparr>wrapperId = ''wrapper_app_0_0'', dataName = ''app'',
                        template = ''<p>hello</p>''\<rparr>,
      strictIsolation = False, scopedCSS = False, singularMode = SingularFlag False,
      globalObject = Proxy ''app'', mountSandbox = noop, unmountSandbox = noop,
      lifeCycleHooks = noLifeCycles, exportedLifeCycles = sampleLifeCycles\<rparr>"

text \<open>The states the loads of \<open>sampleApp\<close> in \<open>world0\<close> and in \<open>laterWorld\<close> lead to.\<close>

definition loadedWorld :: "nat list world" where
  "loadedWorld = stateOf (loadApp sampleExt sampleApp noConfig noLifeCycles world0)"



text \<open>
  A singular-mode predicate that records 9 in the log each time it is evaluated and
  says yes when it has been evaluated an even number of times before.
\<close>

definition flipPolicy :: "nat list singular_policy" where
  "flipPolicy =
     SingularFn (\<lambda>app s. Resolved (even (count_list (user s) 9)) (s\<lparr>user := user s @ [9]\<rparr>))"

definition flipConfig :: "nat list framework_configuration" where
  "flipConfig = \<lparr>cfg_singular = Some flipPolicy, cfg_sandbox = None\<rparr>"

definition flipLoaded :: "nat list loaded" where
  "flipLoaded = sampleLoaded\<lparr>singularMode := flipPolicy\<rparr>"

text \<open>
  A closure whose sandbox records 4 when mounted, whose second \<^verbatim>\<open>beforeMount\<close> hook rejects
  and whose \<^verbatim>\<open>afterMount\<close> hook records 8.
\<close>

definition failingLoaded :: "nat list loaded" where
  "failingLoaded =
     sampleLoaded
       \<lparr>singularMode := SingularFlag True,
        mountSandbox := logHook 4 () (),
        lifeCycleHooks := noLifeCycles\<lparr>beforeMount := [logHook 1, failHook 2],
                                         afterMount := [logHook 8]\<rparr>\<rparr>"

text \<open>
  The state after the first four steps of mounting this closure, and the environment
  its \<^verbatim>\<open>beforeMount\<close> hooks leave.
\<close>

definition failW1 :: "nat list world" where
  "failW1 = stateOf (runSteps (take 4 (mountSteps sampleExt failingLoaded None)) world0)"

definition failS2 :: "nat list env" where
  "failS2 = stateOf (execHooksChain (beforeMount (lifeCycleHooks failingLoaded))
                       (loadedApp failingLoaded) (globalObject failingLoaded) (env failW1))"

text \<open>The states after the load with the recording predicate and after the first mount.\<close>

definition flipW1 :: "nat list world" where
  "flipW1 = stateOf (loadApp sampleExt sampleApp flipConfig noLifeCycles world0)"

definition flipW2 :: "nat list world" where
  "flipW2 = stateOf (runSteps (mount (parcelConfigGetter sampleExt flipLoaded None)) flipW1)"

text \<open>The state the first call of \<open>loadMicroApp\<close> for \<open>sampleApp\<close> leaves.\<close>

definition cachedWorld :: "nat list world" where
  "cachedWorld = stateOf (loadMicroApp sampleExt sampleApp None noLifeCycles world0)"

text \<open>
  A content loader that fails the first time (recording 5 in the log) and succeeds
  afterwards, and the state the first call of \<open>loadMicroApp\<close> with it leaves.
\<close>

definition flakyExt :: "nat list externals" where
  "flakyExt =
     sampleExt\<lparr>importEntry :=
       (\<lambda>entry s. if user s = [] then Rejected (Reason 5) (s\<lparr>user := [5]\<rparr>)
                  else Resolved sampleEntry s)\<rparr>"

definition flakyWorld :: "nat list world" where
  "flakyWorld = stateOf (loadMicroApp flakyExt sampleApp None noLifeCycles world0)"

section \<open>The singular-mode protocol\<close>

text \<open>The part of the state the protocol is about: the installed deferred object and all
  deferred objects made so far. A step keeps it when it leaves it as it is, however the
  step ends.\<close>

definition tokens :: "'u world \<Rightarrow> nat option \<times> deferred list" where
  "tokens w = (prevAppUnmountedDeferred w, deferreds w)"

definition keeps :: "('u world \<Rightarrow> ('e, 'a, 'u world) outcome) \<Rightarrow> bool" where
  "keeps f = (\<forall>w. tokens (stateOf (f w)) = tokens w)"

text \<open>The steps between the wait and the issuance, and the steps before the resolution.\<close>

definition mountMiddle :: "'u externals \<Rightarrow> 'u loaded \<Rightarrow> container_ref option \<Rightarrow> 'u step list" where
  "mountMiddle ext l r = take 6 (drop 2 (mountSteps ext l r))"

definition unmountFront :: "'u externals \<Rightarrow> 'u loaded \<Rightarrow> container_ref option \<Rightarrow> 'u step list" where
  "unmountFront ext l r = take 5 (unmountSteps ext l r)"

text \<open>
  The invariant of sequential runs, for closures \<open>ls\<close> of which those with the indices
  \<open>mounted\<close> are mounted: the installed object exists; every object but the installed one
  is resolved; while an instance with singular mode is mounted, the installed object is
  unresolved and is the one this instance made; and every resolved object was resolved by
  the instance that made it.
\<close>

definition tokenInv :: "'u loaded list \<Rightarrow> nat list \<Rightarrow> nat option \<times> deferred list \<Rightarrow> bool" where
  "tokenInv ls mounted t =
     (case t of (installed, ds) \<Rightarrow>
        (\<forall>d. installed = Some d \<longrightarrow> d < length ds) \<and>
        (\<forall>d < length ds. installed \<noteq> Some d \<longrightarrow> resolved (ds ! d)) \<and>
        (\<forall>i \<in> set mounted. singularMode (ls ! i) = SingularFlag True \<longrightarrow>
           (\<exists>d. installed = Some d \<and> \<not> resolved (ds ! d) \<and> creator (ds ! d) = i)) \<and>
        (\<forall>x \<in> set ds. resolved x \<longrightarrow> resolver x = Some (creator x)))"

text \<open>
  Two applications loaded with singular mode, one after the other, one for each
  container of the sample page, and the closures and the states the two loads give.
  Then their mount sequences interleaved step by step (both pass the wait before either
  reaches the issuance), followed by the unmount of the first; and the two instances
  mounted and unmounted one after the other.
\<close>

definition singularConfig :: "nat list framework_configuration" where
  "singularConfig = \<lparr>cfg_singular = Some (SingularFlag True), cfg_sandbox = None\<rparr>"

definition otherApp :: "nat list loadable_app" where
  "otherApp = \<lparr>app_name = ''other'', app_entry = ''//localhost/other'',
                app_container = Some (Selector ''#b''), app_render = None\<rparr>"

definition singularA :: "nat list loaded" where
  "singularA = sampleLoaded\<lparr>singularMode := SingularFlag True\<rparr>"

definition singularB :: "nat list loaded" where
  "singularB =
     \<lparr>loadNo = 1, loadedApp = otherApp, instanceId = ''other_0_0'',
      wrapperContent = \<lparr>wrapperId = ''wrapper_other_0_0'', dataName = ''other'',
                        template = ''<p>hello</p>''\<rparr>,
      strictIsolation = False, scopedCSS = False, singularMode = SingularFlag True,
      globalObject = Proxy ''other'', mountSandbox = noop, unmountSandbox = noop,
      lifeCycleHooks = noLifeCycles, exportedLifeCycles = sampleLifeCycles\<rparr>"

definition worldA :: "nat list world" where
  "worldA = stateOf (loadApp sampleExt sampleApp singularConfig noLifeCycles world0)"

definition worldAB :: "nat list world" where
  "worldAB = stateOf (loadApp sampleExt otherApp singularConfig noLifeCycles worldA)"

definition bothMounting :: "nat list task list \<times> nat list world" where
  "bothMounting =
     interleave ([0, 0, 1, 1] @ replicate 8 0 @ replicate 8 1)
       ([Running (mount (parcelConfigGetter sampleExt singularA None)),
         Running (mount (parcelConfigGetter sampleExt singularB None))], worldAB)"

definition bothMounted :: "nat list world" where
  "bothMounted = snd bothMounting"

definition unmountedA :: "nat list world" where
  "unmountedA = stateOf (runSteps (unmount (parcelConfigGetter sampleExt singularA None)) bothMounted)"

definition turnByTurn :: "(nat list world \<times> nat list) option" where
  "turnByTurn =
     sequentially sampleExt [singularA, singularB] [Mount 0, Unmount 0, Mount 1, Unmount 1]
       (worldAB, [])"

definition turnsWorld :: "nat list world" where
  "turnsWorld = (case turnByTurn of Some (w, m) \<Rightarrow> w | None \<Rightarrow> worldAB)"

section \<open>Properties of execHooksChain\<close>

lemma await_Resolved [simp]: "await (Resolved a s) k = k a s"
  by (simp add: await_def)

lemma await_Rejected [simp]: "await (Rejected e s) k = Rejected e s"
  by (simp add: await_def)

lemma await_Pending [simp]: "await (Pending d s) k = Pending d s"
  by (simp add: await_def)

lemma chain_Rejected:
  "foldl (\<lambda>chain hook. await chain (\<lambda>_. hook app g)) (Rejected e s) hs = Rejected e s"
  by (induction hs) simp_all

lemma chain_Pending:
  "foldl (\<lambda>chain hook. await chain (\<lambda>_. hook app g)) (Pending d s) hs = Pending d s"
  by (induction hs) simp_all

lemma execHooksChain_Nil: "execHooksChain [] app g s = Resolved () s"
  by (simp add: execHooksChain_def)

lemma execHooksChain_Cons:
  "execHooksChain (h # hs) app g s = await (h app g s) (\<lambda>_. execHooksChain hs app g)"
proof (cases "h app g s")
  case (Resolved a s')
  then show ?thesis by (simp add: execHooksChain_def)
next
  case (Rejected e s')
  then show ?thesis by (simp add: execHooksChain_def chain_Rejected)
next
  case (Pending d s')
  then show ?thesis by (simp add: execHooksChain_def chain_Pending)
qed

lemma execHooksChain_append:
  "execHooksChain (hs1 @ hs2) app g s =
     await (execHooksChain hs1 app g s) (\<lambda>_. execHooksChain hs2 app g)"
proof (induction hs1 arbitrary: s)
  case Nil
  show ?case by (simp add: execHooksChain_Nil)
next
  case (Cons h hs1)
  show ?case
    by (cases "h app g s") (simp_all add: execHooksChain_Cons Cons.IH)
qed

text \<open>
  C4. The hooks run strictly one after another: the chain on \<open>h # hs\<close> first runs \<open>h\<close>
  and starts the rest only from the state \<open>h\<close> resolved in; the empty chain resolves at
  once without touching the state; and when the hooks before \<open>h\<close> resolved and \<open>h\<close>
  rejects with \<open>e\<close>, the chain rejects with the same \<open>e\<close> in the very state \<open>h\<close> left,
  whatever hooks \<open>hs2\<close> follow (none of them is invoked).
\<close>

theorem execHooksChain_sequential:
  "execHooksChain [] app g s = Resolved () s \<and>
   execHooksChain (h # hs) app g s =
     (case h app g s of
        Resolved _ s' \<Rightarrow> execHooksChain hs app g s'
      | Rejected e s' \<Rightarrow> Rejected e s'
      | Pending d s' \<Rightarrow> Pending d s') \<and>
   (execHooksChain hs1 app g s = Resolved () s1 \<and> h app g s1 = Rejected e s2 \<longrightarrow>
      execHooksChain (hs1 @ h # hs2) app g s = Rejected e s2)"
proof (intro conjI impI)
  show "execHooksChain [] app g s = Resolved () s"
    by (rule execHooksChain_Nil)
next
  show "execHooksChain (h # hs) app g s =
     (case h app g s of
        Resolved _ s' \<Rightarrow> execHooksChain hs app g s'
      | Rejected e s' \<Rightarrow> Rejected e s'
      | Pending d s' \<Rightarrow> Pending d s')"
    by (simp add: execHooksChain_Cons await_def)
next
  assume a: "execHooksChain hs1 app g s = Resolved () s1 \<and> h app g s1 = Rejected e s2"
  have "execHooksChain (hs1 @ h # hs2) app g s = execHooksChain (h # hs2) app g s1"
    using a by (simp add: execHooksChain_append)
  also have "\<dots> = Rejected e s2"
    using a by (simp add: execHooksChain_Cons)
  finally show "execHooksChain (hs1 @ h # hs2) app g s = Rejected e s2" .
qed

theorem execHooksChain_sequential_witness:
  "execHooksChain [recording_hook 1] () () [] = Resolved () [1] \<and>
   rejecting_hook 2 () () [1] = Rejected 2 [1, 2] \<and>
   execHooksChain ([recording_hook 1] @ rejecting_hook 2 # [recording_hook 3]) () () [] =
     Rejected 2 [1, 2]"
proof -
  have r: "execHooksChain [recording_hook 1] () () [] = Resolved () [1]"
    by (simp add: execHooksChain_def recording_hook_def)
  have j: "rejecting_hook 2 () () [1] = Rejected 2 [1, 2]"
    by (simp add: rejecting_hook_def)
  from execHooksChain_sequential
    [of "()" "()" "[]" "rejecting_hook 2" "[]" "[recording_hook 1]" "[1]" 2 "[1, 2]" "[recording_hook 3]"]
  have "execHooksChain ([recording_hook 1] @ rejecting_hook 2 # [recording_hook 3]) () () [] =
     Rejected 2 [1, 2]"
    using r j by blast
  with r j show ?thesis by blast
qed

section \<open>Properties of the render function and of createElement\<close>

lemma inclusiveAncestor_refl [simp]: "inclusiveAncestor k par c c"
  by (cases k) simp_all

lemma contains_child: "parent d e = Some c \<Longrightarrow> contains d c (Some e)"
  by (simp add: contains_def)

lemma clearContainer_children: "children (clearContainer d c) c = []"
proof (induction d c rule: clearContainer.induct)
  case (1 d c)
  show ?case
  proof (cases "firstChild d c")
    case None
    then show ?thesis
      by (cases "children d c") (simp_all add: firstChild_def clearContainer.simps [of d c])
  next
    case (Some x)
    with "1.IH" show ?thesis by (simp add: clearContainer.simps [of d c])
  qed
qed

lemma removeChild_selectors [simp]: "selectors (removeChild d c x) = selectors d"
  by (simp add: removeChild_def)

lemma clearContainer_selectors [simp]: "selectors (clearContainer d c) = selectors d"
proof (induction d c rule: clearContainer.induct)
  case (1 d c)
  show ?case
  proof (cases "firstChild d c")
    case None
    then show ?thesis by (simp add: clearContainer.simps [of d c])
  next
    case (Some x)
    with "1.IH" show ?thesis by (simp add: clearContainer.simps [of d c])
  qed
qed

lemma appendChild_selectors: "appendChild d c e = Some d' \<Longrightarrow> selectors d' = selectors d"
  by (auto simp add: appendChild_def Let_def split: if_splits option.splits)

lemma appendChild_parent: "appendChild d c e = Some d' \<Longrightarrow> parent d' e = Some c"
  by (auto simp add: appendChild_def Let_def split: if_splits option.splits)

lemma appendChild_children:
  "appendChild d c e = Some d' \<Longrightarrow> children d c = [] \<Longrightarrow> children d' c = [e]"
  by (auto simp add: appendChild_def Let_def removeChild_def split: if_splits option.splits)

lemma getContainer_selectors:
  "selectors d' = selectors d \<Longrightarrow> getContainer d' r = getContainer d r"
  by (cases "(d, r)" rule: getContainer.cases) simp_all

lemma errorMsg_nonempty [simp]: "errorMsg appName container phase \<noteq> []"
  by (cases phase) simp_all

lemma getRender_unresolved:
  assumes "getContainer (dom s)
             (if truthy (remountContainer props) then remountContainer props else container) = None"
  shows "getRender appName ac container None props phase s =
           (if phase = Unmounted then Resolved () s
            else Rejected (Error (errorMsg appName container phase)) s)"
  using assms by (simp add: getRender_def assertElementExist_def)

lemma getRender_resolved:
  assumes "getContainer (dom s)
             (if truthy (remountContainer props) then remountContainer props else container) = Some c"
  shows "getRender appName ac container None props phase s =
           (if \<not> contains (dom s) c (element props) then
              case element props of
                None \<Rightarrow> Resolved () (s\<lparr>dom := clearContainer (dom s) c\<rparr>)
              | Some e \<Rightarrow>
                  (case appendChild (clearContainer (dom s) c) c e of
                     None \<Rightarrow> Rejected (DOMException ''HierarchyRequestError'')
                               (s\<lparr>dom := clearContainer (dom s) c\<rparr>)
                   | Some d2 \<Rightarrow> Resolved () (s\<lparr>dom := d2\<rparr>))
            else Resolved () s)"
  using assms by (simp add: getRender_def assertElementExist_def Let_def)

lemma getRender_attached:
  assumes r: "getRender appName ac container None props phase s = Resolved () s1"
    and e: "element props = Some e"
    and c: "getContainer (dom s)
             (if truthy (remountContainer props) then remountContainer props else container) = Some c"
  shows "contains (dom s1) c (Some e) \<and> selectors (dom s1) = selectors (dom s) \<and>
         (if contains (dom s) c (Some e) then s1 = s
          else children (dom s1) c = [e] \<and> parent (dom s1) e = Some c)"
proof (cases "contains (dom s) c (Some e)")
  case True
  with r e c have "s1 = s" by (simp add: getRender_resolved)
  with True show ?thesis by simp
next
  case False
  with r e c obtain d2 where a: "appendChild (clearContainer (dom s) c) c e = Some d2"
    and s1: "s1 = s\<lparr>dom := d2\<rparr>"
    by (auto simp add: getRender_resolved split: option.splits)
  from a have "parent d2 e = Some c" by (rule appendChild_parent)
  moreover from a have "children d2 c = [e]"
    by (rule appendChild_children) (rule clearContainer_children)
  moreover from a have "selectors d2 = selectors (dom s)"
    by (simp add: appendChild_selectors)
  ultimately show ?thesis using False s1 by (simp add: contains_child)
qed

text \<open>
  C5. The render function (no legacy render) is idempotent. A call whose element is
  already a descendant of the resolved container returns normally and leaves the state
  as it is, in every phase. So when a call with a non-null element in phase \<open>mounted\<close>
  returns normally, a second call with the same arguments returns normally and changes
  nothing; after the calls the element is under the container exactly once: it is the
  only child of the container, or it was a descendant before the first call and nothing
  was changed at all.
\<close>

theorem render_idempotent:
  "(getContainer (dom s)
      (if truthy (remountContainer props) then remountContainer props else container) = Some c \<and>
    contains (dom s) c (element props) \<longrightarrow>
      getRender appName ac container None props phase s = Resolved () s) \<and>
   (getRender appName ac container None props Mounted s = Resolved () s1 \<and>
    element props = Some e \<longrightarrow>
      getRender appName ac container None props Mounted s1 = Resolved () s1 \<and>
      (\<exists>c. getContainer (dom s)
             (if truthy (remountContainer props) then remountContainer props else container) = Some c \<and>
           contains (dom s1) c (Some e) \<and>
           (if contains (dom s) c (Some e) then s1 = s else children (dom s1) c = [e])))"
proof (rule conjI)
  show "getContainer (dom s)
      (if truthy (remountContainer props) then remountContainer props else container) = Some c \<and>
    contains (dom s) c (element props) \<longrightarrow>
      getRender appName ac container None props phase s = Resolved () s"
    by (simp add: getRender_resolved)
next
  let ?t = "if truthy (remountContainer props) then remountContainer props else container"
  show "getRender appName ac container None props Mounted s = Resolved () s1 \<and>
    element props = Some e \<longrightarrow>
      getRender appName ac container None props Mounted s1 = Resolved () s1 \<and>
      (\<exists>c. getContainer (dom s) ?t = Some c \<and> contains (dom s1) c (Some e) \<and>
           (if contains (dom s) c (Some e) then s1 = s else children (dom s1) c = [e]))"
  proof (rule impI)
    assume a: "getRender appName ac container None props Mounted s = Resolved () s1 \<and>
      element props = Some e"
    then have r: "getRender appName ac container None props Mounted s = Resolved () s1"
      and e: "element props = Some e" by simp_all
    obtain c where c: "getContainer (dom s) ?t = Some c"
    proof (cases "getContainer (dom s) ?t")
      case None
      with r show ?thesis by (simp add: getRender_unresolved)
    next
      case (Some c)
      then show ?thesis by (rule that)
    qed
    from getRender_attached [OF r e c]
    have k: "contains (dom s1) c (Some e)" and sel: "selectors (dom s1) = selectors (dom s)"
      and one: "if contains (dom s) c (Some e) then s1 = s else children (dom s1) c = [e]"
      by (simp_all split: if_splits)
    from c have "getContainer (dom s1) ?t = Some c"
      using getContainer_selectors [OF sel, of ?t] by simp
    then have "getRender appName ac container None props Mounted s1 = Resolved () s1"
      using k e by (simp add: getRender_resolved)
    with c k one show "getRender appName ac container None props Mounted s1 = Resolved () s1 \<and>
        (\<exists>c. getContainer (dom s) ?t = Some c \<and> contains (dom s1) c (Some e) \<and>
             (if contains (dom s) c (Some e) then s1 = s else children (dom s1) c = [e]))"
      by blast
  qed
qed

lemma isResolved_eq: "isResolved p \<Longrightarrow> p = Resolved () (stateOf p)"
  by (cases p) (simp_all add: isResolved_def stateOf_def)



lemma clearContainer_empty: "children d c = [] \<Longrightarrow> clearContainer d c = d"
  by (simp add: clearContainer.simps [of d c] firstChild_def)

lemma clearContainer_single:
  "children d c = [x] \<Longrightarrow> clearContainer d c = removeChild d c x"
  by (simp add: clearContainer.simps [of d c] firstChild_def clearContainer_empty removeChild_def)

lemma hostA_resolved:
  "getRender ''app'' content (Some (Selector ''#a'')) None toA Mounted host = Resolved () hostA"
  unfolding hostA_def
  by (rule isResolved_eq)
     (simp add: isResolved_def getRender_def toA_def host_def page_def assertElementExist_def
        contains_def clearContainer_empty appendChild_def Let_def)

lemma hostA_dom:
  "dom hostA = page\<lparr>children := (children page)(0 := [2]), parent := (parent page)(2 := Some 0)\<rparr>"
  unfolding hostA_def
  by (simp add: stateOf_def getRender_def toA_def host_def page_def assertElementExist_def
        contains_def clearContainer_empty appendChild_def Let_def)

theorem render_idempotent_witness:
  "getRender ''app'' content (Some (Selector ''#a'')) None toA Mounted host = Resolved () hostA \<and>
   element toA = Some 2 \<and>
   getRender ''app'' content (Some (Selector ''#a'')) None toA Mounted hostA = Resolved () hostA \<and>
   children (dom hostA) 0 = [2]"
proof -
  have e: "element toA = Some 2" by (simp add: toA_def)
  from render_idempotent
    [of host toA "Some (Selector ''#a'')" 0 "''app''" content Mounted hostA 2]
    hostA_resolved e
  have "getRender ''app'' content (Some (Selector ''#a'')) None toA Mounted hostA =
      Resolved () hostA"
    by blast
  then show ?thesis using hostA_resolved e by (simp add: hostA_dom)
qed




text \<open>
  C8. \<open>createElement\<close> always returns the wrapper element, the root of the parsed content.
  Where the platform has no shadow-DOM primitive, a request for strict style isolation
  changes nothing but the console: the result is that of the call without isolation,
  with one warning added. Where the platform has the primitive, the same wrapper element
  is returned, its own markup is emptied and the markup it had is hosted by its new
  shadow root; nothing is written to the console.
\<close>

theorem createElement_isolation:
  "fst (createElement ac strict s) = Some (Suc (allocated (dom s))) \<and>
   (\<not> supportShadowDOM (dom s) \<longrightarrow>
      createElement ac True s =
        (fst (createElement ac False s),
         (snd (createElement ac False s))
           \<lparr>console := console (snd (createElement ac False s)) @ [shadowWarning]\<rparr>)) \<and>
   (supportShadowDOM (dom s) \<longrightarrow>
      fst (createElement ac True s) = fst (createElement ac False s) \<and>
      innerHTML (dom (snd (createElement ac False s))) (Suc (allocated (dom s))) =
        template ac \<and>
      innerHTML (dom (snd (createElement ac True s))) (Suc (allocated (dom s))) = [] \<and>
      shadowRoot (dom (snd (createElement ac True s))) (Suc (allocated (dom s))) =
        Some (Suc (Suc (allocated (dom s)))) \<and>
      innerHTML (dom (snd (createElement ac True s))) (Suc (Suc (allocated (dom s)))) =
        template ac \<and>
      console (snd (createElement ac True s)) = console s)"
  by (simp add: createElement_def newNode_def parseInto_def firstChild_def supportShadowDOM_def
        attachShadow_def createShadowRoot_def Let_def)

theorem createElement_isolation_witness:
  "\<not> supportShadowDOM (dom legacyHost) \<and>
   createElement content True legacyHost =
     (Some 4, (snd (createElement content False legacyHost))\<lparr>console := [shadowWarning]\<rparr>) \<and>
   shadowRoot (dom (snd (createElement content True legacyHost))) 4 = None \<and>
   supportShadowDOM (dom host) \<and>
   fst (createElement content True host) = Some 4 \<and>
   innerHTML (dom (snd (createElement content False host))) 4 = ''<p>hello</p>'' \<and>
   innerHTML (dom (snd (createElement content True host))) 4 = [] \<and>
   shadowRoot (dom (snd (createElement content True host))) 4 = Some 5 \<and>
   innerHTML (dom (snd (createElement content True host))) 5 = ''<p>hello</p>''"
proof -
  have a: "\<not> supportShadowDOM (dom legacyHost)"
    by (simp add: supportShadowDOM_def legacyHost_def host_def page_def)
  have b: "supportShadowDOM (dom host)"
    by (simp add: supportShadowDOM_def host_def page_def)
  have c: "allocated (dom legacyHost) = 3" "allocated (dom host) = 3"
    "console (snd (createElement content False legacyHost)) = []"
    "template content = ''<p>hello</p>''"
    by (simp_all add: legacyHost_def host_def page_def content_def createElement_def newNode_def
          parseInto_def firstChild_def Let_def)
  have d: "shadowRoot (dom (snd (createElement content True legacyHost))) 4 = None"
    by (simp add: legacyHost_def host_def page_def content_def createElement_def newNode_def
          parseInto_def firstChild_def Let_def supportShadowDOM_def)
  from createElement_isolation [of content True legacyHost]
    createElement_isolation [of content False legacyHost]
    createElement_isolation [of content True host] a b c d
  show ?thesis by (simp add: eval_nat_numeral)
qed

section \<open>Properties of the loader\<close>









lemma resolvesWith_Resolved [simp]: "resolvesWith Q (Resolved a s) = Q a"
  by (simp add: resolvesWith_def)




lemmas sample_defs =
  world0_def laterWorld_def host_def page_def sampleExt_def sampleApp_def noConfig_def
  sampleEntry_def noLifeCycles_def sampleLoaded_def sampleLifeCycles_def

lemmas loader_defs =
  loadApp_def Let_def mathRandom_def lift_env_def validateSingularMode_def waitForPrevApp_def
  createElement_def newNode_def parseInto_def firstChild_def getRender_def
  assertElementExist_def contains_def appendChild_def removeChild_def mergeLifeCycles_def
  execHooksChain_def getLifecyclesFromExports_def

lemma showNat_digit: "n < 10 \<Longrightarrow> showNat n = [''0123456789'' ! n]"
  by (simp add: showNat.simps [of n])

lemma load0:
  "loadApp sampleExt sampleApp noConfig noLifeCycles world0 = Resolved sampleLoaded loadedWorld"
  by (simp add: loadedWorld_def loader_defs sample_defs genAppInstanceId_def showNat_digit
        clearContainer_empty stateOf_def eval_nat_numeral split: prod.splits)




lemma runSteps_append:
  "runSteps (xs @ ys) s = await (runSteps xs s) (\<lambda>_. runSteps ys)"
proof (induction xs arbitrary: s)
  case Nil
  show ?case by simp
next
  case (Cons f fs)
  show ?case by (cases "f s") (simp_all add: Cons.IH)
qed

lemma runSteps_rejected_at:
  assumes "k < length fs" and "runSteps (take k fs) s = Resolved () s1"
    and "(fs ! k) s1 = Rejected e s2"
  shows "runSteps fs s = Rejected e s2"
proof -
  from assms(1) have "fs = take k fs @ fs ! k # drop (Suc k) fs"
    by (rule id_take_nth_drop)
  then have "runSteps fs s = runSteps (take k fs @ fs ! k # drop (Suc k) fs) s"
    by simp
  also have "\<dots> = Rejected e s2"
    using assms(2,3) by (simp add: runSteps_append)
  finally show ?thesis .
qed

lemma lift_env_Rejected: "f (env w) = Rejected e s \<Longrightarrow> lift_env f w = Rejected e (w\<lparr>env := s\<rparr>)"
  by (simp add: lift_env_def)

lemma mountSteps_length [simp]: "length (mountSteps ext l r) = 10"
  by (simp add: mountSteps_def)

lemma mountSteps_4: "mountSteps ext l r ! 4 = hooksStep l (beforeMount (lifeCycleHooks l))"
  by (simp add: mountSteps_def)

lemma waitSingular_later [simp]:
  "waitSingular (l\<lparr>lifeCycleHooks := (lifeCycleHooks l)\<lparr>afterMount := hs\<rparr>,
                   exportedLifeCycles := x\<rparr>) = waitSingular l"
  by (rule ext) (simp add: waitSingular_def)

lemma renderMounting_later [simp]:
  "renderMounting (l\<lparr>lifeCycleHooks := (lifeCycleHooks l)\<lparr>afterMount := hs\<rparr>,
                     exportedLifeCycles := x\<rparr>) r = renderMounting l r"
  by (rule ext) (simp add: renderMounting_def render_def Let_def split: option.splits prod.splits)

lemma beforeMount_later [simp]:
  "hooksStep (l\<lparr>lifeCycleHooks := (lifeCycleHooks l)\<lparr>afterMount := hs\<rparr>,
                exportedLifeCycles := x\<rparr>) chain = hooksStep l chain"
  by (rule ext) (simp add: hooksStep_def)

lemma mountSteps_take_5:
  "take 5 (mountSteps ext (l\<lparr>lifeCycleHooks := (lifeCycleHooks l)\<lparr>afterMount := hs\<rparr>,
                               exportedLifeCycles := x\<rparr>) r) =
   take 5 (mountSteps ext l r)"
  by (simp add: mountSteps_def eval_nat_numeral)

text \<open>
  C3. When the mount steps before step \<open>k\<close> resolved and step \<open>k\<close> rejects, mounting rejects
  with the rejection of that step, in the very state that step left: the effects of the
  completed steps stay and no later step has run. In particular, when a \<^verbatim>\<open>beforeMount\<close>
  hook rejects, mounting rejects with the hook's rejection in the state the hook chain
  left, and so it does whatever the mount function of the application and the
  \<^verbatim>\<open>afterMount\<close> hooks are: they are not invoked.
\<close>

theorem mount_rejection_aborts:
  "(k < length (mountSteps ext l r) \<and>
    runSteps (take k (mountSteps ext l r)) w = Resolved () w1 \<and>
    (mountSteps ext l r ! k) w1 = Rejected e w2 \<longrightarrow>
      runSteps (mount (parcelConfigGetter ext l r)) w = Rejected e w2) \<and>
   (runSteps (take 4 (mountSteps ext l r)) w = Resolved () w1 \<and>
    execHooksChain (beforeMount (lifeCycleHooks l)) (loadedApp l) (globalObject l) (env w1) =
      Rejected e s2 \<longrightarrow>
      runSteps (mount (parcelConfigGetter ext l r)) w = Rejected e (w1\<lparr>env := s2\<rparr>) \<and>
      runSteps (mount (parcelConfigGetter ext
          (l\<lparr>lifeCycleHooks := (lifeCycleHooks l)\<lparr>afterMount := hs\<rparr>,
             exportedLifeCycles := x\<rparr>) r)) w = Rejected e (w1\<lparr>env := s2\<rparr>))"
proof (intro conjI impI)
  assume "k < length (mountSteps ext l r) \<and>
    runSteps (take k (mountSteps ext l r)) w = Resolved () w1 \<and>
    (mountSteps ext l r ! k) w1 = Rejected e w2"
  then have "runSteps (mountSteps ext l r) w = Rejected e w2"
    by (elim conjE) (rule runSteps_rejected_at)
  then show "runSteps (mount (parcelConfigGetter ext l r)) w = Rejected e w2"
    by (simp add: parcelConfigGetter_def)
next
  let ?l = "l\<lparr>lifeCycleHooks := (lifeCycleHooks l)\<lparr>afterMount := hs\<rparr>, exportedLifeCycles := x\<rparr>"
  assume a: "runSteps (take 4 (mountSteps ext l r)) w = Resolved () w1 \<and>
    execHooksChain (beforeMount (lifeCycleHooks l)) (loadedApp l) (globalObject l) (env w1) =
      Rejected e s2"
  then have s: "(mountSteps ext l r ! 4) w1 = Rejected e (w1\<lparr>env := s2\<rparr>)"
    by (simp add: mountSteps_4 hooksStep_def lift_env_Rejected)
  have k: "(4::nat) < length (mountSteps ext l r)" by simp
  from runSteps_rejected_at [OF k _ s] a
  have r: "runSteps (mountSteps ext l r) w = Rejected e (w1\<lparr>env := s2\<rparr>)" by blast
  then show "runSteps (mount (parcelConfigGetter ext l r)) w = Rejected e (w1\<lparr>env := s2\<rparr>)"
    by (simp add: parcelConfigGetter_def)
  have t5: "take 5 (mountSteps ext ?l r) = take 5 (mountSteps ext l r)"
    by (rule mountSteps_take_5)
  have t4: "take 4 (mountSteps ext ?l r) = take 4 (mountSteps ext l r)"
  proof -
    have "take 4 (take 5 (mountSteps ext ?l r)) = take 4 (take 5 (mountSteps ext l r))"
      by (simp only: t5)
    then show ?thesis by simp
  qed
  have n4: "mountSteps ext ?l r ! 4 = mountSteps ext l r ! 4"
  proof -
    have "take 5 (mountSteps ext ?l r) ! 4 = take 5 (mountSteps ext l r) ! 4"
      by (simp only: t5)
    then show ?thesis by simp
  qed
  have k': "(4::nat) < length (mountSteps ext ?l r)" by simp
  from a have p: "runSteps (take 4 (mountSteps ext ?l r)) w = Resolved () w1"
    by (simp only: t4)
  from s have s': "(mountSteps ext ?l r ! 4) w1 = Rejected e (w1\<lparr>env := s2\<rparr>)"
    by (simp only: n4)
  from runSteps_rejected_at [OF k' p s']
  show "runSteps (mount (parcelConfigGetter ext ?l r)) w = Rejected e (w1\<lparr>env := s2\<rparr>)"
    by (simp add: parcelConfigGetter_def)
qed

lemmas step_defs =
  parcelConfigGetter_def mountSteps_def unmountSteps_def waitSingular_def renderMounting_def
  hooksStep_def mountApp_def unmountApp_def appWrapperGetter_def getAppWrapperGetter_def
  renderMounted_def renderUnmounted_def issueDeferred_def resolvePrevApp_def newDeferred_def
  resolveDeferred_def deferredPromise_def render_def noop_def logHook_def failHook_def

lemma failW1_env:
  "user (env failW1) = [4] \<and> prevAppUnmountedDeferred failW1 = None \<and> deferreds failW1 = []"
  by (simp add: failW1_def failingLoaded_def step_defs loader_defs sample_defs clearContainer_empty
        clearContainer_single stateOf_def eval_nat_numeral split: prod.splits)

lemma fail1:
  "runSteps (take 4 (mountSteps sampleExt failingLoaded None)) world0 = Resolved () failW1"
  by (simp add: failW1_def failingLoaded_def step_defs loader_defs sample_defs clearContainer_empty
        clearContainer_single stateOf_def eval_nat_numeral split: prod.splits)

lemma fail2:
  "execHooksChain (beforeMount (lifeCycleHooks failingLoaded)) (loadedApp failingLoaded)
     (globalObject failingLoaded) (env failW1) = Rejected (Reason 2) failS2"
  by (simp add: failS2_def failingLoaded_def step_defs loader_defs sample_defs stateOf_def)

theorem mount_rejection_aborts_witness:
  "runSteps (take 4 (mountSteps sampleExt failingLoaded None)) world0 = Resolved () failW1 \<and>
   execHooksChain (beforeMount (lifeCycleHooks failingLoaded)) (loadedApp failingLoaded)
     (globalObject failingLoaded) (env failW1) = Rejected (Reason 2) failS2 \<and>
   runSteps (mount (parcelConfigGetter sampleExt failingLoaded None)) world0 =
     Rejected (Reason 2) (failW1\<lparr>env := failS2\<rparr>) \<and>
   user failS2 = [4, 1, 2] \<and>
   prevAppUnmountedDeferred (failW1\<lparr>env := failS2\<rparr>) = None"
proof -
  have u: "user failS2 = [4, 1, 2]"
    using failW1_env
    by (simp add: failS2_def failingLoaded_def step_defs loader_defs sample_defs stateOf_def)
  from mount_rejection_aborts
    [of 4 sampleExt failingLoaded None world0 failW1 "Reason 2" "failW1\<lparr>env := failS2\<rparr>" failS2]
    fail1 fail2
  have "runSteps (mount (parcelConfigGetter sampleExt failingLoaded None)) world0 =
     Rejected (Reason 2) (failW1\<lparr>env := failS2\<rparr>)"
    by blast
  with fail1 fail2 u failW1_env show ?thesis by simp
qed

lemma flip1:
  "loadApp sampleExt sampleApp flipConfig noLifeCycles world0 = Resolved flipLoaded flipW1"
  by (simp add: flipW1_def flipLoaded_def flipConfig_def flipPolicy_def loader_defs sample_defs
        genAppInstanceId_def showNat_digit clearContainer_empty stateOf_def eval_nat_numeral
        split: prod.splits)

text \<open>
  C2 as stated fails: the policy is evaluated again by the steps. A predicate that records
  each evaluation in the log (as 9) is evaluated once by the load and twice more by the
  first mount of that load (6 is the mount function of the application).
\<close>

theorem singular_policy_evaluated_again:
  "loadApp sampleExt sampleApp flipConfig noLifeCycles world0 = Resolved flipLoaded flipW1 \<and>
   user (env flipW1) = [9] \<and>
   runSteps (mount (parcelConfigGetter sampleExt flipLoaded None)) flipW1 = Resolved () flipW2 \<and>
   user (env flipW2) = [9, 9, 6, 9]"
proof -
  have a: "user (env flipW1) = [9]"
    by (simp add: flipW1_def flipLoaded_def flipConfig_def flipPolicy_def loader_defs sample_defs
        genAppInstanceId_def showNat_digit clearContainer_empty stateOf_def eval_nat_numeral
        split: prod.splits)
  have b: "runSteps (mount (parcelConfigGetter sampleExt flipLoaded None)) flipW1 = Resolved () flipW2"
    by (simp add: flipW2_def flipW1_def flipLoaded_def flipConfig_def flipPolicy_def step_defs
        loader_defs sample_defs
        genAppInstanceId_def showNat_digit clearContainer_empty clearContainer_single stateOf_def
        eval_nat_numeral split: prod.splits)
  have c: "user (env flipW2) = [9, 9, 6, 9]"
    by (simp add: flipW2_def flipW1_def flipLoaded_def flipConfig_def flipPolicy_def step_defs
        loader_defs sample_defs
        genAppInstanceId_def showNat_digit clearContainer_empty clearContainer_single stateOf_def
        eval_nat_numeral split: prod.splits)
  from flip1 a b c show ?thesis by simp
qed

lemma awaitPromise_promiseOf:
  "await (awaitPromise (promiseOf p) s) k =
     (case p of Resolved a _ \<Rightarrow> k a s | Rejected e _ \<Rightarrow> Rejected e s | Pending d _ \<Rightarrow> Pending d s)"
  by (cases p) (simp_all add: awaitPromise_def promiseOf_def)

text \<open>
  C10, as amended. For a descriptor whose container is truthy and resolves to an element
  with a non-empty XPath, the map caches the promise of the load under the key of name
  and XPath. When a promise is cached, nothing is loaded or evaluated and the state is
  unchanged: a fulfilled promise gives the parcel config its getter makes for the
  container, with \<^verbatim>\<open>bootstrap\<close> replaced by a function that resolves at once; a rejected
  promise makes the call reject with the same reason; an unsettled one makes it wait. When
  nothing is cached under the key, \<^verbatim>\<open>loadApp\<close> runs, its promise is stored under the key
  whatever its outcome, and the result is the parcel config its getter makes for the
  container, or its rejection.
\<close>

theorem loadMicroApp_cached:
  assumes "truthy (app_container app)"
    and "getContainerXpath ext (app_container app) w = Some xpath"
    and "xpath \<noteq> []"
  shows "(appConfigPormiseGetterMap w (app_name app @ ''-'' @ xpath) = Some (Fulfilled l) \<longrightarrow>
            loadMicroApp ext app configuration lifeCycles w =
              Resolved ((parcelConfigGetter ext l (app_container app))\<lparr>bootstrap := noop\<rparr>) w) \<and>
         (appConfigPormiseGetterMap w (app_name app @ ''-'' @ xpath) = Some (Failed e) \<longrightarrow>
            loadMicroApp ext app configuration lifeCycles w = Rejected e w) \<and>
         (appConfigPormiseGetterMap w (app_name app @ ''-'' @ xpath) = Some (Unsettled d) \<longrightarrow>
            loadMicroApp ext app configuration lifeCycles w = Pending d w) \<and>
         (appConfigPormiseGetterMap w (app_name app @ ''-'' @ xpath) = None \<longrightarrow>
            (let loading = loadApp ext app
                   (case configuration of Some c \<Rightarrow> c | None \<Rightarrow> frameworkConfiguration w)
                   lifeCycles w;
                 w' = (stateOf loading)
                        \<lparr>appConfigPormiseGetterMap :=
                           (appConfigPormiseGetterMap (stateOf loading))
                             (app_name app @ ''-'' @ xpath \<mapsto> promiseOf loading)\<rparr>
             in loadMicroApp ext app configuration lifeCycles w =
                  (case loading of
                     Resolved l' _ \<Rightarrow> Resolved (parcelConfigGetter ext l' (app_container app)) w'
                   | Rejected e' _ \<Rightarrow> Rejected e' w'
                   | Pending d' _ \<Rightarrow> Pending d' w')))"
  using assms
  by (simp add: loadMicroApp_def memorizedLoadingFn_def Let_def awaitPromise_promiseOf)
     (simp add: awaitPromise_def)

lemma sampleApp_fields [simp]:
  "app_container sampleApp = Some (Selector ''#a'')" "app_name sampleApp = ''app''"
  by (simp_all add: sampleApp_def)

lemma cached_facts:
  "getContainerXpath sampleExt (Some (Selector ''#a'')) world0 = Some ''/node0''"
  "appConfigPormiseGetterMap world0 ''app-/node0'' = None"
  "frameworkConfiguration world0 = noConfig"
  by (simp_all add: getContainerXpath_def sample_defs showNat_digit)

lemma loadedWorld_facts:
  "selectors (dom (env loadedWorld)) ''#a'' = Some 0"
  "loadCount loadedWorld = 1"
  by (simp_all add: loadedWorld_def stateOf_def loader_defs sample_defs
        genAppInstanceId_def showNat_digit clearContainer_empty eval_nat_numeral
        split: prod.splits)

lemma fresh_load:
  "loadMicroApp sampleExt sampleApp None noLifeCycles world0 =
     Resolved (parcelConfigGetter sampleExt sampleLoaded (Some (Selector ''#a'')))
       (loadedWorld\<lparr>appConfigPormiseGetterMap :=
          (appConfigPormiseGetterMap loadedWorld)(''app-/node0'' \<mapsto> Fulfilled sampleLoaded)\<rparr>)"
  by (simp add: loadMicroApp_def memorizedLoadingFn_def Let_def cached_facts load0
        stateOf_def promiseOf_def awaitPromise_def)

lemma cachedWorld_eq:
  "cachedWorld =
     loadedWorld\<lparr>appConfigPormiseGetterMap :=
        (appConfigPormiseGetterMap loadedWorld)(''app-/node0'' \<mapsto> Fulfilled sampleLoaded)\<rparr>"
  by (simp add: cachedWorld_def fresh_load stateOf_def)

lemma cachedWorld_facts:
  "getContainerXpath sampleExt (Some (Selector ''#a'')) cachedWorld = Some ''/node0''"
  "appConfigPormiseGetterMap cachedWorld ''app-/node0'' = Some (Fulfilled sampleLoaded)"
  "loadCount cachedWorld = 1"
  by (simp_all add: cachedWorld_eq getContainerXpath_def loadedWorld_facts sampleExt_def
        showNat_digit)

theorem loadMicroApp_cached_witness:
  "truthy (app_container sampleApp) \<and>
   getContainerXpath sampleExt (app_container sampleApp) world0 = Some ''/node0'' \<and>
   appConfigPormiseGetterMap world0 ''app-/node0'' = None \<and>
   loadMicroApp sampleExt sampleApp None noLifeCycles world0 =
     Resolved (parcelConfigGetter sampleExt sampleLoaded (Some (Selector ''#a''))) cachedWorld \<and>
   loadCount cachedWorld = 1 \<and>
   getContainerXpath sampleExt (app_container sampleApp) cachedWorld = Some ''/node0'' \<and>
   appConfigPormiseGetterMap cachedWorld ''app-/node0'' = Some (Fulfilled sampleLoaded) \<and>
   loadMicroApp sampleExt sampleApp None noLifeCycles cachedWorld =
     Resolved ((parcelConfigGetter sampleExt sampleLoaded (Some (Selector ''#a'')))
                 \<lparr>bootstrap := noop\<rparr>) cachedWorld"
proof -
  have ne: "''/node0'' \<noteq> []" by simp
  have t: "truthy (app_container sampleApp)" by simp
  have x: "getContainerXpath sampleExt (app_container sampleApp) cachedWorld = Some ''/node0''"
    by (simp add: cachedWorld_facts)
  from loadMicroApp_cached [OF t x ne,
      where configuration = None and lifeCycles = noLifeCycles and l = sampleLoaded]
    cachedWorld_facts(2)
  have again: "loadMicroApp sampleExt sampleApp None noLifeCycles cachedWorld =
     Resolved ((parcelConfigGetter sampleExt sampleLoaded (Some (Selector ''#a'')))
                 \<lparr>bootstrap := noop\<rparr>) cachedWorld"
    by simp
  from fresh_load again cached_facts cachedWorld_facts show ?thesis
    by (simp add: cachedWorld_eq)
qed

lemma flaky_xpath:
  "getContainerXpath flakyExt (Some (Selector ''#a'')) world0 = Some ''/node0''"
  by (simp add: getContainerXpath_def flakyExt_def sample_defs showNat_digit)

lemma flaky_first:
  "loadMicroApp flakyExt sampleApp None noLifeCycles world0 = Rejected (Reason 5) flakyWorld"
  by (simp add: flakyWorld_def loadMicroApp_def memorizedLoadingFn_def Let_def flaky_xpath
        cached_facts awaitPromise_def promiseOf_def stateOf_def)
     (simp add: loadApp_def Let_def mathRandom_def lift_env_def flakyExt_def sample_defs)

lemma flakyWorld_eval:
  "appConfigPormiseGetterMap flakyWorld ''app-/node0'' = Some (Failed (Reason 5)) \<and>
   getContainerXpath flakyExt (Some (Selector ''#a'')) flakyWorld = Some ''/node0'' \<and>
   user (env flakyWorld) = [5] \<and> loadCount flakyWorld = 1"
  by (simp add: flakyWorld_def loadMicroApp_def memorizedLoadingFn_def Let_def flaky_xpath
        cached_facts awaitPromise_def promiseOf_def stateOf_def)
     (simp add: loadApp_def Let_def mathRandom_def lift_env_def flakyExt_def sample_defs
        getContainerXpath_def showNat_digit)

lemma flakyWorld_explicit:
  "flakyWorld =
     world0\<lparr>env := host\<lparr>drawn := 1, user := [5]\<rparr>, loadCount := 1,
            appConfigPormiseGetterMap := [''app-/node0'' \<mapsto> Failed (Reason 5)]\<rparr>"
  by (simp add: flakyWorld_def loadMicroApp_def memorizedLoadingFn_def Let_def flaky_xpath
        cached_facts awaitPromise_def promiseOf_def stateOf_def)
     (simp add: loadApp_def Let_def mathRandom_def lift_env_def flakyExt_def sample_defs)

text \<open>
  C10 as stated fails where it says that without a cached getter a fresh load is
  performed. A first load that fails leaves its rejected promise in the map. The next
  call for the same name and container finds no getter there, and a fresh load would now
  succeed; yet the call loads nothing and rejects with the reason of the first failure.
\<close>

theorem failed_load_stays_cached:
  "appConfigPormiseGetterMap world0 ''app-/node0'' = None \<and>
   loadMicroApp flakyExt sampleApp None noLifeCycles world0 = Rejected (Reason 5) flakyWorld \<and>
   appConfigPormiseGetterMap flakyWorld ''app-/node0'' = Some (Failed (Reason 5)) \<and>
   isResolved (loadApp flakyExt sampleApp noConfig noLifeCycles flakyWorld) \<and>
   loadMicroApp flakyExt sampleApp None noLifeCycles flakyWorld = Rejected (Reason 5) flakyWorld"
proof -
  have again: "loadMicroApp flakyExt sampleApp None noLifeCycles flakyWorld =
      Rejected (Reason 5) flakyWorld"
    using flakyWorld_eval
    by (simp add: loadMicroApp_def memorizedLoadingFn_def Let_def awaitPromise_def)
  have would: "isResolved (loadApp flakyExt sampleApp noConfig noLifeCycles flakyWorld)"
    by (simp add: flakyWorld_explicit isResolved_def loader_defs flakyExt_def sample_defs
          genAppInstanceId_def showNat_digit clearContainer_empty eval_nat_numeral
          split: prod.splits)
  from again would flaky_first flakyWorld_eval cached_facts show ?thesis by simp
qed

text \<open>
  C2, as amended. The wait and issuance steps of mounting and the resolution step of
  unmounting each evaluate the policy themselves. When the policy is a static flag, or a
  predicate that always resolves to the same value and leaves the environment as it is,
  the three steps act on that one decision \<open>b\<close>.
\<close>

theorem singular_policy_pure:
  assumes "singularMode l = SingularFlag b \<or>
           (\<exists>f. singularMode l = SingularFn f \<and> (\<forall>s. f (loadedApp l) s = Resolved b s))"
  shows "waitSingular l w = waitForPrevApp b w \<and>
         issueDeferred l w =
           (if b then
              Resolved ()
                (w\<lparr>deferreds := deferreds w @ [\<lparr>resolved = False, creator = loadNo l, resolver = None\<rparr>],
                   prevAppUnmountedDeferred := Some (length (deferreds w))\<rparr>)
            else Resolved () w) \<and>
         resolvePrevApp l w =
           (if b then
              (case prevAppUnmountedDeferred w of
                 Some d \<Rightarrow> Resolved () (resolveDeferred (loadNo l) d w)
               | None \<Rightarrow> Resolved () w)
            else Resolved () w)"
proof -
  from assms have "validateSingularMode (singularMode l) (loadedApp l) (env w) = Resolved b (env w)"
    by (auto simp add: validateSingularMode_def)
  then have v: "lift_env (validateSingularMode (singularMode l) (loadedApp l)) w = Resolved b w"
    by (simp add: lift_env_def)
  show ?thesis
    by (simp add: waitSingular_def issueDeferred_def resolvePrevApp_def v newDeferred_def)
qed

theorem singular_policy_pure_witness:
  "(singularMode failingLoaded = SingularFlag True \<or>
    (\<exists>f. singularMode failingLoaded = SingularFn f \<and>
         (\<forall>s. f (loadedApp failingLoaded) s = Resolved True s))) \<and>
   waitSingular failingLoaded world0 = Resolved () world0 \<and>
   prevAppUnmountedDeferred (stateOf (issueDeferred failingLoaded world0)) = Some 0 \<and>
   resolvePrevApp failingLoaded world0 = Resolved () world0"
proof -
  have a: "singularMode failingLoaded = SingularFlag True \<or>
    (\<exists>f. singularMode failingLoaded = SingularFn f \<and>
         (\<forall>s. f (loadedApp failingLoaded) s = Resolved True s))"
    by (simp add: failingLoaded_def)
  from singular_policy_pure [OF a, of world0] a
  show ?thesis
    by (simp add: waitForPrevApp_def world0_def stateOf_def)
qed

section \<open>Properties of the singular-mode protocol\<close>

lemma tokens_env [simp]: "tokens (w\<lparr>env := s\<rparr>) = tokens w"
  by (simp add: tokens_def)

lemma tokens_wrapper [simp]: "tokens (w\<lparr>appWrapperElement := x\<rparr>) = tokens w"
  by (simp add: tokens_def)

lemma stateOf_simps [simp]:
  "stateOf (Resolved a s) = s" "stateOf (Rejected e s) = s" "stateOf (Pending d s) = s"
  by (simp_all add: stateOf_def)

lemma tokens_lift_env [simp]: "tokens (stateOf (lift_env f w)) = tokens w"
  by (cases "f (env w)") (simp_all add: lift_env_def)

lemma tokens_await:
  assumes "tokens (stateOf p) = tokens w" and "\<And>a s. tokens (stateOf (k a s)) = tokens s"
  shows "tokens (stateOf (await p k)) = tokens w"
  using assms by (cases p) simp_all

lemma tokens_appWrapperGetter [simp]: "tokens (stateOf (appWrapperGetter ext l w)) = tokens w"
  by (simp add: appWrapperGetter_def getAppWrapperGetter_def Let_def assertElementExist_def
        split: option.splits)

lemma tokens_hooksStep [simp]: "tokens (stateOf (hooksStep l chain w)) = tokens w"
  by (simp add: hooksStep_def)

lemma tokens_mountApp [simp]: "tokens (stateOf (mountApp ext l w)) = tokens w"
  unfolding mountApp_def by (rule tokens_await) simp_all

lemma tokens_unmountApp [simp]: "tokens (stateOf (unmountApp ext l w)) = tokens w"
  unfolding unmountApp_def by (rule tokens_await) simp_all

lemma tokens_renderMounting [simp]: "tokens (stateOf (renderMounting l r w)) = tokens w"
  by (simp add: renderMounting_def Let_def split: option.splits prod.splits)

lemma tokens_renderMounted [simp]: "tokens (stateOf (renderMounted l r w)) = tokens w"
  by (simp add: renderMounted_def)

lemma tokens_renderUnmounted [simp]: "tokens (stateOf (renderUnmounted ext l r w)) = tokens w"
  unfolding renderUnmounted_def by (rule tokens_await) simp_all

lemma tokens_noop [simp]: "tokens (stateOf (noop w)) = tokens w"
  by (simp add: noop_def)

lemma keeps_runSteps: "(\<forall>f \<in> set fs. keeps f) \<Longrightarrow> keeps (runSteps fs)"
proof (induction fs)
  case Nil
  show ?case by (simp add: keeps_def)
next
  case (Cons f fs)
  show ?case
    unfolding keeps_def
  proof
    fix w
    from Cons.prems have a: "tokens (stateOf (f w)) = tokens w"
      by (simp add: keeps_def)
    from Cons have "keeps (runSteps fs)" by simp
    then have b: "\<And>a s. tokens (stateOf (runSteps fs s)) = tokens s"
      by (simp add: keeps_def)
    from a b show "tokens (stateOf (runSteps (f # fs) w)) = tokens w"
      by (simp add: tokens_await)
  qed
qed

lemma keeps_mountMiddle: "keeps (runSteps (mountMiddle ext l r))"
  by (rule keeps_runSteps) (simp add: mountMiddle_def mountSteps_def keeps_def)

lemma keeps_unmountFront: "keeps (runSteps (unmountFront ext l r))"
  by (rule keeps_runSteps) (simp add: unmountFront_def unmountSteps_def keeps_def)

lemma mountSteps_split:
  "mountSteps ext l r = [noop, waitSingular l] @ mountMiddle ext l r @ [issueDeferred l, noop]"
  by (simp add: mountMiddle_def mountSteps_def)

lemma unmountSteps_split:
  "unmountSteps ext l r = unmountFront ext l r @ [resolvePrevApp l]"
  by (simp add: unmountFront_def unmountSteps_def)

lemma static_validate:
  "singularMode l = SingularFlag b \<Longrightarrow>
   lift_env (validateSingularMode (singularMode l) (loadedApp l)) w = Resolved b w"
  by (simp add: validateSingularMode_def lift_env_def)

text \<open>What mounting does to the deferred objects, for a static flag.\<close>

lemma mount_tokens:
  assumes "singularMode l = SingularFlag b"
  shows "case runSteps (mountSteps ext l r) w of
           Resolved _ w' \<Rightarrow>
             (if b then
                (case prevAppUnmountedDeferred w of
                   None \<Rightarrow> True
                 | Some d \<Rightarrow> d < length (deferreds w) \<and> resolved (deferreds w ! d)) \<and>
                tokens w' =
                  (Some (length (deferreds w)),
                   deferreds w @ [\<lparr>resolved = False, creator = loadNo l, resolver = None\<rparr>])
              else tokens w' = tokens w)
         | Rejected _ w' \<Rightarrow> tokens w' = tokens w
         | Pending _ w' \<Rightarrow> tokens w' = tokens w"
proof -
  let ?issue = "\<lambda>w1. if b then
      Resolved () (w1\<lparr>deferreds := deferreds w1 @ [\<lparr>resolved = False, creator = loadNo l, resolver = None\<rparr>],
                    prevAppUnmountedDeferred := Some (length (deferreds w1))\<rparr>)
    else Resolved () w1"
  have tail: "runSteps [issueDeferred l, noop] = ?issue"
    by (rule ext)
       (simp add: issueDeferred_def static_validate [OF assms] newDeferred_def noop_def)
  have mid: "\<And>w1. tokens (stateOf (runSteps (mountMiddle ext l r) w1)) = tokens w1"
    using keeps_mountMiddle [of ext l r] by (simp add: keeps_def)
  have rest: "runSteps (mountMiddle ext l r @ [issueDeferred l, noop]) =
      (\<lambda>w0. await (runSteps (mountMiddle ext l r) w0) (\<lambda>_. ?issue))"
    by (rule ext) (simp only: runSteps_append tail)
  have "runSteps (mountSteps ext l r) w =
      await (waitSingular l w) (\<lambda>_. runSteps (mountMiddle ext l r @ [issueDeferred l, noop]))"
    by (simp add: mountSteps_split noop_def)
  then have run: "runSteps (mountSteps ext l r) w =
      await (waitForPrevApp b w)
        (\<lambda>_ w0. await (runSteps (mountMiddle ext l r) w0) (\<lambda>_. ?issue))"
    by (simp only: rest waitSingular_def static_validate [OF assms] await_Resolved)
  show ?thesis
  proof (cases "waitForPrevApp b w")
    case (Resolved u w0)
    then have w0: "w0 = w"
      by (auto simp add: waitForPrevApp_def deferredPromise_def split: if_splits option.splits)
    from Resolved have pre: "b \<longrightarrow> (case prevAppUnmountedDeferred w of
                   None \<Rightarrow> True
                 | Some d \<Rightarrow> d < length (deferreds w) \<and> resolved (deferreds w ! d))"
      by (auto simp add: waitForPrevApp_def deferredPromise_def split: if_splits option.splits)
    show ?thesis
    proof (cases "runSteps (mountMiddle ext l r) w")
      case (Resolved u' w1)
      with mid [of w] have "tokens w1 = tokens w" by simp
      with Resolved \<open>waitForPrevApp b w = Resolved u w0\<close> w0 pre show ?thesis
        by (simp add: run tokens_def)
    next
      case (Rejected e w1)
      with mid [of w] have "tokens w1 = tokens w" by simp
      with Rejected \<open>waitForPrevApp b w = Resolved u w0\<close> w0 show ?thesis
        by (simp add: run)
    next
      case (Pending d w1)
      with mid [of w] have "tokens w1 = tokens w" by simp
      with Pending \<open>waitForPrevApp b w = Resolved u w0\<close> w0 show ?thesis
        by (simp add: run)
    qed
  next
    case (Rejected e w0)
    then show ?thesis
      by (auto simp add: waitForPrevApp_def deferredPromise_def split: if_splits option.splits)
  next
    case (Pending d w0)
    then have "w0 = w"
      by (auto simp add: waitForPrevApp_def deferredPromise_def split: if_splits option.splits)
    with Pending show ?thesis by (simp add: run)
  qed
qed

lemma tokens_resolveDeferred:
  "tokens (resolveDeferred c d w) =
     (prevAppUnmountedDeferred w,
      if d < length (deferreds w) \<and> \<not> resolved (deferreds w ! d)
      then (deferreds w)[d := (deferreds w ! d)\<lparr>resolved := True, resolver := Some c\<rparr>]
      else deferreds w)"
  by (simp add: tokens_def resolveDeferred_def)

lemma unmount_tokens:
  assumes "singularMode l = SingularFlag b"
  shows "case runSteps (unmountSteps ext l r) w of
           Resolved _ w' \<Rightarrow>
             tokens w' =
               (if b then
                  (case prevAppUnmountedDeferred w of
                     Some d \<Rightarrow> tokens (resolveDeferred (loadNo l) d w)
                   | None \<Rightarrow> tokens w)
                else tokens w)
         | Rejected _ w' \<Rightarrow> tokens w' = tokens w
         | Pending _ w' \<Rightarrow> tokens w' = tokens w"
proof -
  have front: "\<And>w1. tokens (stateOf (runSteps (unmountFront ext l r) w1)) = tokens w1"
    using keeps_unmountFront [of ext l r] by (simp add: keeps_def)
  let ?resolve = "\<lambda>w1. if b then
         (case prevAppUnmountedDeferred w1 of
            Some d \<Rightarrow> Resolved () (resolveDeferred (loadNo l) d w1)
          | None \<Rightarrow> Resolved () w1)
       else Resolved () w1"
  have last: "runSteps [resolvePrevApp l] = ?resolve"
    by (rule ext)
       (simp add: resolvePrevApp_def static_validate [OF assms] split: option.splits)
  have run: "runSteps (unmountSteps ext l r) w =
      await (runSteps (unmountFront ext l r) w) (\<lambda>_. ?resolve)"
    by (simp only: unmountSteps_split runSteps_append last)
  show ?thesis
  proof (cases "runSteps (unmountFront ext l r) w")
    case (Resolved u w1)
    with front [of w] have t: "tokens w1 = tokens w" by simp
    then have "prevAppUnmountedDeferred w1 = prevAppUnmountedDeferred w"
      and "deferreds w1 = deferreds w"
      by (simp_all add: tokens_def)
    with Resolved t show ?thesis
      by (simp add: run tokens_resolveDeferred split: option.splits)
  next
    case (Rejected e w1)
    with front [of w] show ?thesis by (simp add: run)
  next
    case (Pending d w1)
    with front [of w] show ?thesis by (simp add: run)
  qed
qed

lemma tokenInv_mono: "tokenInv ls m t \<Longrightarrow> set m' \<subseteq> set m \<Longrightarrow> tokenInv ls m' t"
  by (auto simp add: tokenInv_def split: prod.splits)

lemma tokenInv_mount_plain:
  "tokenInv ls m t \<Longrightarrow> singularMode (ls ! i) = SingularFlag False \<Longrightarrow> tokenInv ls (i # m) t"
  by (auto simp add: tokenInv_def split: prod.splits)

lemma tokenInv_issue:
  assumes inv: "tokenInv ls m (installed, ds)"
    and free: "case installed of None \<Rightarrow> True | Some d \<Rightarrow> d < length ds \<and> resolved (ds ! d)"
  shows "tokenInv ls (i # m)
           (Some (length ds), ds @ [\<lparr>resolved = False, creator = i, resolver = None\<rparr>])"
proof -
  have all: "\<forall>d < length ds. resolved (ds ! d)"
  proof (intro allI impI)
    fix d assume d: "d < length ds"
    show "resolved (ds ! d)"
    proof (cases "installed = Some d")
      case True
      with free show ?thesis by simp
    next
      case False
      with inv d show ?thesis by (simp add: tokenInv_def)
    qed
  qed
  have none: "\<forall>j \<in> set m. singularMode (ls ! j) \<noteq> SingularFlag True"
  proof
    fix j assume j: "j \<in> set m"
    show "singularMode (ls ! j) \<noteq> SingularFlag True"
    proof
      assume "singularMode (ls ! j) = SingularFlag True"
      with inv j obtain d where "installed = Some d" and "\<not> resolved (ds ! d)"
        by (auto simp add: tokenInv_def)
      with free show False by simp
    qed
  qed
  from inv have own: "\<forall>x \<in> set ds. resolved x \<longrightarrow> resolver x = Some (creator x)"
    by (simp add: tokenInv_def)
  show ?thesis
    using all none own
    by (auto simp add: tokenInv_def nth_append less_Suc_eq)
qed

lemma tokenInv_resolve:
  assumes inv: "tokenInv ls m (installed, ds)"
    and i: "i \<in> set m" and flag: "singularMode (ls ! i) = SingularFlag True"
  shows "\<exists>d. installed = Some d \<and> d < length ds \<and> \<not> resolved (ds ! d) \<and>
             tokenInv ls (removeAll i m)
               (installed, ds[d := (ds ! d)\<lparr>resolved := True, resolver := Some i\<rparr>])"
proof -
  from inv i flag obtain d where d: "installed = Some d" "\<not> resolved (ds ! d)"
    "creator (ds ! d) = i"
    by (auto simp add: tokenInv_def)
  from inv d have len: "d < length ds" by (simp add: tokenInv_def)
  let ?ds = "ds[d := (ds ! d)\<lparr>resolved := True, resolver := Some i\<rparr>]"
  have a: "\<forall>d'. installed = Some d' \<longrightarrow> d' < length ?ds"
    using d len by simp
  have b: "\<forall>d' < length ?ds. installed \<noteq> Some d' \<longrightarrow> resolved (?ds ! d')"
    using inv d by (simp add: tokenInv_def nth_list_update)
  have c: "\<forall>j \<in> set (removeAll i m). singularMode (ls ! j) = SingularFlag True \<longrightarrow>
             (\<exists>d'. installed = Some d' \<and> \<not> resolved (?ds ! d') \<and> creator (?ds ! d') = j)"
  proof (intro ballI impI)
    fix j assume j: "j \<in> set (removeAll i m)" and f: "singularMode (ls ! j) = SingularFlag True"
    from j have "j \<in> set m" "j \<noteq> i" by simp_all
    with inv f obtain d' where "installed = Some d'" "creator (ds ! d') = j"
      by (auto simp add: tokenInv_def)
    with d \<open>j \<noteq> i\<close> have False by simp
    then show "\<exists>d'. installed = Some d' \<and> \<not> resolved (?ds ! d') \<and> creator (?ds ! d') = j" ..
  qed
  have e: "\<forall>x \<in> set ?ds. resolved x \<longrightarrow> resolver x = Some (creator x)"
  proof (intro ballI impI)
    fix x assume x: "x \<in> set ?ds" and r: "resolved x"
    from x have "x = (ds ! d)\<lparr>resolved := True, resolver := Some i\<rparr> \<or> x \<in> set ds"
      using set_update_subset_insert [of ds d "(ds ! d)\<lparr>resolved := True, resolver := Some i\<rparr>"]
      by auto
    then show "resolver x = Some (creator x)"
    proof
      assume "x = (ds ! d)\<lparr>resolved := True, resolver := Some i\<rparr>"
      with d show ?thesis by simp
    next
      assume "x \<in> set ds"
      with inv r show ?thesis by (simp add: tokenInv_def)
    qed
  qed
  from a b c e have "tokenInv ls (removeAll i m) (installed, ?ds)"
    by (simp add: tokenInv_def)
  with d len show ?thesis by blast
qed

lemma mount_step_inv:
  assumes inv: "tokenInv ls m (tokens w)"
    and flag: "singularMode (ls ! i) = SingularFlag b" and no: "loadNo (ls ! i) = i"
  shows "case runSteps (mountSteps ext (ls ! i) r) w of
           Resolved _ w' \<Rightarrow> tokenInv ls (i # m) (tokens w')
         | Rejected _ w' \<Rightarrow> tokens w' = tokens w
         | Pending _ w' \<Rightarrow> tokens w' = tokens w"
proof (cases "runSteps (mountSteps ext (ls ! i) r) w")
  case (Resolved u w')
  show ?thesis
  proof (cases b)
    case True
    with mount_tokens [OF flag, where ext = ext and r = r and w = w] Resolved no
    have free: "case prevAppUnmountedDeferred w of
                  None \<Rightarrow> True
                | Some d \<Rightarrow> d < length (deferreds w) \<and> resolved (deferreds w ! d)"
      and t: "tokens w' =
                (Some (length (deferreds w)),
                 deferreds w @ [\<lparr>resolved = False, creator = i, resolver = None\<rparr>])"
      by simp_all
    from inv have "tokenInv ls m (prevAppUnmountedDeferred w, deferreds w)"
      by (simp add: tokens_def)
    from tokenInv_issue [OF this free, where i = i] t Resolved show ?thesis by simp
  next
    case False
    with mount_tokens [OF flag, where ext = ext and r = r and w = w] Resolved have "tokens w' = tokens w" by simp
    moreover from False flag inv have "tokenInv ls (i # m) (tokens w)"
      by (simp add: tokenInv_mount_plain)
    ultimately show ?thesis using Resolved by simp
  qed
next
  case (Rejected e w')
  with mount_tokens [OF flag, where ext = ext and r = r and w = w] show ?thesis by simp
next
  case (Pending d w')
  with mount_tokens [OF flag, where ext = ext and r = r and w = w] show ?thesis by simp
qed

lemma unmount_step_inv:
  assumes inv: "tokenInv ls m (tokens w)"
    and flag: "singularMode (ls ! i) = SingularFlag b" and no: "loadNo (ls ! i) = i"
    and i: "i \<in> set m"
  shows "case runSteps (unmountSteps ext (ls ! i) r) w of
           Resolved _ w' \<Rightarrow> tokenInv ls (removeAll i m) (tokens w')
         | Rejected _ w' \<Rightarrow> tokens w' = tokens w
         | Pending _ w' \<Rightarrow> tokens w' = tokens w"
proof (cases "runSteps (unmountSteps ext (ls ! i) r) w")
  case (Resolved u w')
  show ?thesis
  proof (cases b)
    case True
    from inv have inv': "tokenInv ls m (prevAppUnmountedDeferred w, deferreds w)"
      by (simp add: tokens_def)
    from flag True have "singularMode (ls ! i) = SingularFlag True" by simp
    from tokenInv_resolve [OF inv' i this] obtain d where
      d: "prevAppUnmountedDeferred w = Some d" "d < length (deferreds w)"
         "\<not> resolved (deferreds w ! d)"
      and new: "tokenInv ls (removeAll i m)
                  (prevAppUnmountedDeferred w,
                   (deferreds w)[d := (deferreds w ! d)\<lparr>resolved := True, resolver := Some i\<rparr>])"
      by blast
    from unmount_tokens [OF flag, where ext = ext and r = r and w = w] Resolved True d no
    have "tokens w' =
            (prevAppUnmountedDeferred w,
             (deferreds w)[d := (deferreds w ! d)\<lparr>resolved := True, resolver := Some i\<rparr>])"
      by (simp add: tokens_resolveDeferred)
    with new Resolved show ?thesis by simp
  next
    case False
    with unmount_tokens [OF flag, where ext = ext and r = r and w = w] Resolved have "tokens w' = tokens w" by simp
    moreover from inv have "tokenInv ls (removeAll i m) (tokens w)"
      by (rule tokenInv_mono) auto
    ultimately show ?thesis using Resolved by simp
  qed
next
  case (Rejected e w')
  with unmount_tokens [OF flag, where ext = ext and r = r and w = w] show ?thesis by simp
next
  case (Pending d w')
  with unmount_tokens [OF flag, where ext = ext and r = r and w = w] show ?thesis by simp
qed

lemma sequentially_tokenInv:
  assumes static: "\<forall>i < length ls. loadNo (ls ! i) = i \<and> (\<exists>b. singularMode (ls ! i) = SingularFlag b)"
  shows "tokenInv ls m (tokens w) \<Longrightarrow> sequentially ext ls ts (w, m) = Some (w', m') \<Longrightarrow>
         tokenInv ls m' (tokens w')"
proof (induction ts arbitrary: w m)
  case Nil
  then show ?case by simp
next
  case (Cons t ts)
  show ?case
  proof (cases t)
    case (Mount i)
    with Cons.prems(2) have i: "i < length ls" "i \<notin> set m"
      by (simp_all split: if_splits)
    with static obtain b where flag: "singularMode (ls ! i) = SingularFlag b"
      and no: "loadNo (ls ! i) = i" by blast
    note step = mount_step_inv [OF Cons.prems(1) flag no, where ext = ext and r = None]
    show ?thesis
    proof (cases "runSteps (mountSteps ext (ls ! i) None) w")
      case (Resolved u w1)
      with step have "tokenInv ls (i # m) (tokens w1)" by simp
      moreover from Cons.prems(2) Mount i Resolved
      have "sequentially ext ls ts (w1, i # m) = Some (w', m')"
        by (simp add: parcelConfigGetter_def)
      ultimately show ?thesis by (rule Cons.IH)
    next
      case (Rejected e w1)
      with step Cons.prems(1) have "tokenInv ls m (tokens w1)" by simp
      moreover from Cons.prems(2) Mount i Rejected
      have "sequentially ext ls ts (w1, m) = Some (w', m')"
        by (simp add: parcelConfigGetter_def)
      ultimately show ?thesis by (rule Cons.IH)
    next
      case (Pending d w1)
      with Cons.prems(2) Mount i show ?thesis
        by (simp add: parcelConfigGetter_def)
    qed
  next
    case (Unmount i)
    with Cons.prems(2) have i: "i < length ls" "i \<in> set m"
      by (simp_all split: if_splits)
    with static obtain b where flag: "singularMode (ls ! i) = SingularFlag b"
      and no: "loadNo (ls ! i) = i" by blast
    note step = unmount_step_inv [OF Cons.prems(1) flag no i(2), where ext = ext and r = None]
    from Cons.prems(1) have mono: "tokenInv ls (removeAll i m) (tokens w)"
      by (rule tokenInv_mono) auto
    show ?thesis
    proof (cases "runSteps (unmountSteps ext (ls ! i) None) w")
      case (Resolved u w1)
      with step have "tokenInv ls (removeAll i m) (tokens w1)" by simp
      moreover from Cons.prems(2) Unmount i Resolved
      have "sequentially ext ls ts (w1, removeAll i m) = Some (w', m')"
        by (simp add: parcelConfigGetter_def)
      ultimately show ?thesis by (rule Cons.IH)
    next
      case (Rejected e w1)
      with step mono have "tokenInv ls (removeAll i m) (tokens w1)" by simp
      moreover from Cons.prems(2) Unmount i Rejected
      have "sequentially ext ls ts (w1, removeAll i m) = Some (w', m')"
        by (simp add: parcelConfigGetter_def)
      ultimately show ?thesis by (rule Cons.IH)
    next
      case (Pending d w1)
      with Cons.prems(2) Unmount i show ?thesis
        by (simp add: parcelConfigGetter_def)
    qed
  qed
qed

lemma length_le_1:
  assumes "distinct xs" and "\<forall>x \<in> set xs. x = a"
  shows "length xs \<le> 1"
proof (cases xs)
  case Nil
  then show ?thesis by simp
next
  case (Cons x ys)
  have "ys = []"
  proof (cases ys)
    case Nil
    then show ?thesis .
  next
    case (Cons y zs)
    with \<open>xs = x # ys\<close> assms(2) have "x = a" "y = a" by simp_all
    with \<open>xs = x # ys\<close> Cons assms(1) show ?thesis by simp
  qed
  with Cons show ?thesis by simp
qed

lemma tokenInv_unresolved:
  assumes "tokenInv ls m (tokens w)"
  shows "length (unresolved w) \<le> 1"
proof -
  have d: "distinct (unresolved w)" by (simp add: unresolved_def)
  show ?thesis
  proof (cases "prevAppUnmountedDeferred w")
    case None
    with assms have "unresolved w = []"
      by (auto simp add: unresolved_def tokenInv_def tokens_def filter_empty_conv)
    then show ?thesis by simp
  next
    case (Some a)
    with assms have "\<forall>x \<in> set (unresolved w). x = a"
      by (auto simp add: unresolved_def tokenInv_def tokens_def)
    with d show ?thesis by (rule length_le_1)
  qed
qed

lemma tokenInv_initial:
  "prevAppUnmountedDeferred w = None \<Longrightarrow> deferreds w = [] \<Longrightarrow> tokenInv ls [] (tokens w)"
  by (simp add: tokenInv_def tokens_def)

lemmas scenario_defs =
  bothMounting_def bothMounted_def unmountedA_def turnByTurn_def singularA_def singularB_def
  worldA_def worldAB_def singularConfig_def otherApp_def

lemmas eval_defs =
  scenario_defs step_defs loader_defs sample_defs genAppInstanceId_def showNat_digit
  clearContainer_empty clearContainer_single stateOf_def eval_nat_numeral

lemma loadA:
  "loadApp sampleExt sampleApp singularConfig noLifeCycles world0 = Resolved singularA worldA"
  by (simp add: eval_defs split: prod.splits)

lemma loadB:
  "loadApp sampleExt otherApp singularConfig noLifeCycles worldA = Resolved singularB worldAB"
  by (simp add: eval_defs split: prod.splits)

lemma worldAB_tokens:
  "prevAppUnmountedDeferred worldAB = None" "deferreds worldAB = []"
  by (simp_all add: eval_defs split: prod.splits)

lemma bothMounting_eval:
  "fst bothMounting = [Running [], Running []] \<and>
   prevAppUnmountedDeferred bothMounted = Some 1 \<and>
   deferreds bothMounted =
     [\<lparr>resolved = False, creator = 0, resolver = None\<rparr>,
      \<lparr>resolved = False, creator = 1, resolver = None\<rparr>]"
  by (simp add: eval_defs split: prod.splits)

lemma unresolved_eval:
  "unresolved w = filter (\<lambda>d. \<not> resolved (deferreds w ! d)) [0..<length (deferreds w)]"
  by (simp add: unresolved_def)

lemma unmountedA_eval:
  "runSteps (unmount (parcelConfigGetter sampleExt singularA None)) bothMounted =
     Resolved () unmountedA \<and>
   deferreds unmountedA =
     [\<lparr>resolved = False, creator = 0, resolver = None\<rparr>,
      \<lparr>resolved = True, creator = 1, resolver = Some 0\<rparr>]"
  by (simp add: eval_defs split: prod.splits)

text \<open>
  C1 as stated fails. Two applications are loaded with singular mode and start mounting
  together, as the steps of distinct instances may interleave: both pass the wait step
  while no deferred object is installed, then each installs its own. Both objects are
  unresolved at the same time. The unmount of the first instance then resolves the
  installed object, which the second instance made: the resolution step checks no owner.
\<close>

theorem interleaved_tokens:
  "loadApp sampleExt sampleApp singularConfig noLifeCycles world0 = Resolved singularA worldA \<and>
   loadApp sampleExt otherApp singularConfig noLifeCycles worldA = Resolved singularB worldAB \<and>
   fst bothMounting = [Running [], Running []] \<and>
   unresolved bothMounted = [0, 1] \<and>
   creator (deferreds bothMounted ! 1) = 1 \<and>
   runSteps (unmount (parcelConfigGetter sampleExt singularA None)) bothMounted =
     Resolved () unmountedA \<and>
   deferreds unmountedA ! 1 = \<lparr>resolved = True, creator = 1, resolver = Some 0\<rparr>"
  using loadA loadB bothMounting_eval unmountedA_eval
  by (simp add: unresolved_eval upt_rec [of 0] upt_rec [of 1])

lemma tokens_waitForPrevApp [simp]: "tokens (stateOf (waitForPrevApp b w)) = tokens w"
  by (simp add: waitForPrevApp_def deferredPromise_def split: option.splits)

lemma tokens_waitSingular [simp]: "tokens (stateOf (waitSingular l w)) = tokens w"
  unfolding waitSingular_def by (rule tokens_await) simp_all

lemma keeps_take: "(\<forall>f \<in> set fs. keeps f) \<Longrightarrow> keeps (runSteps (take k fs))"
  by (rule keeps_runSteps) (auto dest: in_set_takeD)

lemma runSteps_snoc_noop: "runSteps (fs @ [noop]) s = runSteps fs s"
  by (cases "runSteps fs s") (simp_all add: runSteps_append noop_def)

lemma mount_prefix:
  "(tokens (stateOf (runSteps (take k (mountSteps ext l r)) w)) = tokens w) \<or>
   runSteps (take k (mountSteps ext l r)) w = runSteps (mountSteps ext l r) w"
proof (cases "k \<le> 8")
  case True
  let ?front = "[noop, waitSingular l] @ mountMiddle ext l r"
  have len: "length ?front = 8"
    by (simp add: mountMiddle_def mountSteps_def)
  have "\<forall>f \<in> set ?front. keeps f"
    by (simp add: mountMiddle_def mountSteps_def keeps_def)
  then have "keeps (runSteps (take k ?front))" by (rule keeps_take)
  moreover have "take k (mountSteps ext l r) = take k ?front"
  proof -
    from True have "k - 8 = 0" by simp
    then have z: "k - length ?front = 0" by (simp only: len)
    have "mountSteps ext l r = ?front @ [issueDeferred l, noop]"
      by (simp add: mountSteps_split)
    then have "take k (mountSteps ext l r) =
        take k ?front @ take (k - length ?front) [issueDeferred l, noop]"
      by (simp only: take_append)
    then show ?thesis by (simp only: z take_0 append_Nil2)
  qed
  ultimately show ?thesis by (simp add: keeps_def)
next
  case False
  then have "k = 9 \<or> 10 \<le> k" by arith
  then show ?thesis
  proof
    assume "k = 9"
    then have "take k (mountSteps ext l r) @ [noop] = mountSteps ext l r"
      by (simp add: mountSteps_def)
    then have "runSteps (take k (mountSteps ext l r) @ [noop]) w = runSteps (mountSteps ext l r) w"
      by simp
    then have "runSteps (take k (mountSteps ext l r)) w = runSteps (mountSteps ext l r) w"
      by (simp only: runSteps_snoc_noop)
    then show ?thesis ..
  next
    assume "10 \<le> k"
    then show ?thesis by simp
  qed
qed

lemma unmount_prefix:
  "(tokens (stateOf (runSteps (take k (unmountSteps ext l r)) w)) = tokens w) \<or>
   runSteps (take k (unmountSteps ext l r)) w = runSteps (unmountSteps ext l r) w"
proof (cases "k \<le> 5")
  case True
  have len: "length (unmountFront ext l r) = 5"
    by (simp add: unmountFront_def unmountSteps_def)
  have "\<forall>f \<in> set (unmountFront ext l r). keeps f"
    by (simp add: unmountFront_def unmountSteps_def keeps_def)
  then have "keeps (runSteps (take k (unmountFront ext l r)))" by (rule keeps_take)
  moreover have "take k (unmountSteps ext l r) = take k (unmountFront ext l r)"
  proof -
    from True have "k - 5 = 0" by simp
    then have z: "k - length (unmountFront ext l r) = 0" by (simp only: len)
    have "take k (unmountSteps ext l r) =
        take k (unmountFront ext l r) @ take (k - length (unmountFront ext l r)) [resolvePrevApp l]"
      by (simp only: unmountSteps_split take_append)
    then show ?thesis by (simp only: z take_0 append_Nil2)
  qed
  ultimately show ?thesis by (simp add: keeps_def)
next
  case False
  then have "length (unmountSteps ext l r) \<le> k" by (simp add: unmountSteps_def)
  then show ?thesis by simp
qed

text \<open>
  C1, as amended. When transitions run one at a time (each mount or unmount settles
  before the next starts, an instance is mounted only while unmounted and unmounted only
  while mounted) and every singular-mode policy is a static flag, then after every
  transition, and after every step of a mount or of an unmount that may follow, at most
  one deferred object is unresolved, and every resolved object was resolved by the
  instance whose mount made it.
\<close>

theorem sequential_tokens:
  assumes static: "\<forall>i < length ls. loadNo (ls ! i) = i \<and> (\<exists>b. singularMode (ls ! i) = SingularFlag b)"
    and init: "prevAppUnmountedDeferred w0 = None" "deferreds w0 = []"
    and run: "sequentially ext ls ts (w0, []) = Some (w, mounted)"
  shows "length (unresolved w) \<le> 1 \<and>
         (\<forall>x \<in> set (deferreds w). resolved x \<longrightarrow> resolver x = Some (creator x)) \<and>
         (\<forall>i k. i < length ls \<longrightarrow>
            length (unresolved (stateOf
              (runSteps (take k (mount (parcelConfigGetter ext (ls ! i) None))) w))) \<le> 1) \<and>
         (\<forall>i k. i < length ls \<and> i \<in> set mounted \<longrightarrow>
            length (unresolved (stateOf
              (runSteps (take k (unmount (parcelConfigGetter ext (ls ! i) None))) w))) \<le> 1)"
proof -
  from init have "tokenInv ls [] (tokens w0)" by (rule tokenInv_initial)
  from sequentially_tokenInv [OF static this run] have inv: "tokenInv ls mounted (tokens w)" .
  have own: "\<forall>x \<in> set (deferreds w). resolved x \<longrightarrow> resolver x = Some (creator x)"
    using inv by (simp add: tokenInv_def tokens_def)
  have m: "\<forall>i k. i < length ls \<longrightarrow>
            length (unresolved (stateOf
              (runSteps (take k (mount (parcelConfigGetter ext (ls ! i) None))) w))) \<le> 1"
  proof (intro allI impI)
    fix i k assume i: "i < length ls"
    with static obtain b where flag: "singularMode (ls ! i) = SingularFlag b"
      and no: "loadNo (ls ! i) = i" by blast
    let ?p = "runSteps (take k (mountSteps ext (ls ! i) None)) w"
    have "\<exists>m'. tokenInv ls m' (tokens (stateOf ?p))"
    proof (cases "tokens (stateOf ?p) = tokens w")
      case True
      with inv have "tokenInv ls mounted (tokens (stateOf ?p))" by simp
      then show ?thesis ..
    next
      case False
      with mount_prefix [of k ext "ls ! i" None w]
      have full: "?p = runSteps (mountSteps ext (ls ! i) None) w" by simp
      from mount_step_inv [OF inv flag no, where ext = ext and r = None] False full
      have "tokenInv ls (i # mounted) (tokens (stateOf ?p))"
        by (cases "runSteps (mountSteps ext (ls ! i) None) w") simp_all
      then show ?thesis ..
    qed
    then obtain m' where "tokenInv ls m' (tokens (stateOf ?p))" ..
    then have "length (unresolved (stateOf ?p)) \<le> 1" by (rule tokenInv_unresolved)
    then show "length (unresolved (stateOf
              (runSteps (take k (mount (parcelConfigGetter ext (ls ! i) None))) w))) \<le> 1"
      by (simp add: parcelConfigGetter_def)
  qed
  have u: "\<forall>i k. i < length ls \<and> i \<in> set mounted \<longrightarrow>
            length (unresolved (stateOf
              (runSteps (take k (unmount (parcelConfigGetter ext (ls ! i) None))) w))) \<le> 1"
  proof (intro allI impI)
    fix i k assume a: "i < length ls \<and> i \<in> set mounted"
    with static obtain b where flag: "singularMode (ls ! i) = SingularFlag b"
      and no: "loadNo (ls ! i) = i" by blast
    from a have i: "i \<in> set mounted" by simp
    let ?p = "runSteps (take k (unmountSteps ext (ls ! i) None)) w"
    have "\<exists>m'. tokenInv ls m' (tokens (stateOf ?p))"
    proof (cases "tokens (stateOf ?p) = tokens w")
      case True
      with inv have "tokenInv ls mounted (tokens (stateOf ?p))" by simp
      then show ?thesis ..
    next
      case False
      with unmount_prefix [of k ext "ls ! i" None w]
      have full: "?p = runSteps (unmountSteps ext (ls ! i) None) w" by simp
      from unmount_step_inv [OF inv flag no i, where ext = ext and r = None] False full
      have "tokenInv ls (removeAll i mounted) (tokens (stateOf ?p))"
        by (cases "runSteps (unmountSteps ext (ls ! i) None) w") simp_all
      then show ?thesis ..
    qed
    then obtain m' where "tokenInv ls m' (tokens (stateOf ?p))" ..
    then have "length (unresolved (stateOf ?p)) \<le> 1" by (rule tokenInv_unresolved)
    then show "length (unresolved (stateOf
              (runSteps (take k (unmount (parcelConfigGetter ext (ls ! i) None))) w))) \<le> 1"
      by (simp add: parcelConfigGetter_def)
  qed
  from tokenInv_unresolved [OF inv] own m u show ?thesis by blast
qed

lemma turnByTurn_eval:
  "sequentially sampleExt [singularA, singularB] [Mount 0, Unmount 0, Mount 1, Unmount 1]
     (worldAB, []) = Some (turnsWorld, [])"
  by (simp add: turnsWorld_def eval_defs split: prod.splits)

lemma turnsWorld_deferreds:
  "deferreds turnsWorld =
     [\<lparr>resolved = True, creator = 0, resolver = Some 0\<rparr>,
      \<lparr>resolved = True, creator = 1, resolver = Some 1\<rparr>]"
  by (simp add: turnsWorld_def eval_defs split: prod.splits)

theorem sequential_tokens_witness:
  "loadNo singularA = 0 \<and> singularMode singularA = SingularFlag True \<and>
   loadNo singularB = 1 \<and> singularMode singularB = SingularFlag True \<and>
   prevAppUnmountedDeferred worldAB = None \<and> deferreds worldAB = [] \<and>
   sequentially sampleExt [singularA, singularB] [Mount 0, Unmount 0, Mount 1, Unmount 1]
     (worldAB, []) = Some (turnsWorld, []) \<and>
   length (unresolved turnsWorld) \<le> 1 \<and>
   deferreds turnsWorld =
     [\<lparr>resolved = True, creator = 0, resolver = Some 0\<rparr>,
      \<lparr>resolved = True, creator = 1, resolver = Some 1\<rparr>]"
proof -
  have f: "loadNo singularA = 0" "singularMode singularA = SingularFlag True"
    "loadNo singularB = 1" "singularMode singularB = SingularFlag True"
    by (simp_all add: singularA_def singularB_def sampleLoaded_def)
  have static: "\<forall>i < length [singularA, singularB].
      loadNo ([singularA, singularB] ! i) = i \<and>
      (\<exists>b. singularMode ([singularA, singularB] ! i) = SingularFlag b)"
    using f by (auto simp add: less_Suc_eq)
  from sequential_tokens [OF static worldAB_tokens turnByTurn_eval]
  have "length (unresolved turnsWorld) \<le> 1" by blast
  with f worldAB_tokens turnByTurn_eval turnsWorld_deferreds show ?thesis by simp
qed

end
